theory Spec2Isabelle
  imports Main
begin

unbundle bit_operations_syntax

section \<open>Poedit's editing area: plural-form describer and translation synchronizer\<close>

text \<open>
  A shallow embedding of \<^verbatim>\<open>src/editing_area.cpp\<close>. A \<^verbatim>\<open>wxString\<close> is a list of
  characters; only emptiness, equality, the last character, appending and removing the
  last character are used by the code, and (in UTF-8) the line feed is a single byte, so
  a byte string behaves as the wide string does.
\<close>

type_synonym wxString = string

definition newline :: char where
  "newline = CHR 0x0A"

definition wxEmptyString :: wxString where
  "wxEmptyString = []"

subsection \<open>Catalog items\<close>

text \<open>
  Modelled from the spec: the class \<^verbatim>\<open>CatalogItem\<close> (catalog.h) is not part of the
  source at hand. Section 3 of the specification describes it as a bundle of fields that
  the editing area reads and assigns: the source text, the optional plural source, the
  ordered translations (field \<open>itemTranslations\<close>) and four flags. The accessors below carry the names the code calls
  them by, and do nothing but read or assign the field. An index past the end of the
  translations reads as the empty string, and assigning translation \<open>0\<close> of an item that
  has none stores it as the only one.
\<close>

record CatalogItem =
  source :: wxString
  hasPlural :: bool
  sourcePlural :: wxString
  itemTranslations :: "wxString list"
  isFuzzy :: bool
  isTranslated :: bool
  isModified :: bool
  isPreTranslated :: bool

definition GetString :: "CatalogItem \<Rightarrow> wxString" where
  "GetString item = source item"

definition HasPlural :: "CatalogItem \<Rightarrow> bool" where
  "HasPlural item = hasPlural item"

definition GetPluralString :: "CatalogItem \<Rightarrow> wxString" where
  "GetPluralString item = sourcePlural item"

definition GetNumberOfTranslations :: "CatalogItem \<Rightarrow> nat" where
  "GetNumberOfTranslations item = length (itemTranslations item)"

definition GetTranslation :: "CatalogItem \<Rightarrow> nat \<Rightarrow> wxString" where
  "GetTranslation item idx =
     (if idx < length (itemTranslations item) then itemTranslations item ! idx else wxEmptyString)"

definition GetTranslations :: "CatalogItem \<Rightarrow> wxString list" where
  "GetTranslations item = itemTranslations item"

definition SetTranslation :: "wxString \<Rightarrow> CatalogItem \<Rightarrow> CatalogItem" where
  "SetTranslation t item =
     (if itemTranslations item = [] then item\<lparr>itemTranslations := [t]\<rparr>
      else item\<lparr>itemTranslations := (itemTranslations item)[0 := t]\<rparr>)"

definition SetTranslations :: "wxString list \<Rightarrow> CatalogItem \<Rightarrow> CatalogItem" where
  "SetTranslations ts item = item\<lparr>itemTranslations := ts\<rparr>"

definition IsFuzzy :: "CatalogItem \<Rightarrow> bool" where
  "IsFuzzy item = isFuzzy item"

definition SetFuzzy :: "bool \<Rightarrow> CatalogItem \<Rightarrow> CatalogItem" where
  "SetFuzzy b item = item\<lparr>isFuzzy := b\<rparr>"

definition IsTranslated :: "CatalogItem \<Rightarrow> bool" where
  "IsTranslated item = isTranslated item"

definition SetTranslated :: "bool \<Rightarrow> CatalogItem \<Rightarrow> CatalogItem" where
  "SetTranslated b item = item\<lparr>isTranslated := b\<rparr>"

definition SetModified :: "bool \<Rightarrow> CatalogItem \<Rightarrow> CatalogItem" where
  "SetModified b item = item\<lparr>isModified := b\<rparr>"

definition SetPreTranslated :: "bool \<Rightarrow> CatalogItem \<Rightarrow> CatalogItem" where
  "SetPreTranslated b item = item\<lparr>isPreTranslated := b\<rparr>"

subsection \<open>Processing of entered text\<close>

text \<open>
  \<^verbatim>\<open>PreprocessEnteredTextForItem\<close> (lines 92-105): the outer test guards both calls of
  \<^verbatim>\<open>Last()\<close>, which is only defined on a non-empty string.
\<close>

definition PreprocessEnteredTextForItem :: "CatalogItem \<Rightarrow> wxString \<Rightarrow> wxString" where
  "PreprocessEnteredTextForItem item t =
     (let orig = GetString item in
      if t \<noteq> [] \<and> orig \<noteq> [] then
        (if last orig = newline \<and> last t \<noteq> newline then t @ [newline]
         else if last orig \<noteq> newline \<and> last t = newline then butlast t
         else t)
      else t)"

text \<open>
  The rule as the specification words it (section 4.2, step 1), for comparison with the
  code: a text ends with a newline when it is non-empty and its last character is the
  line feed.
\<close>

definition ends_with_newline :: "wxString \<Rightarrow> bool" where
  "ends_with_newline s = (s \<noteq> [] \<and> last s = newline)"

definition spec_entered_text_normalization :: "wxString \<Rightarrow> wxString \<Rightarrow> wxString" where
  "spec_entered_text_normalization src entered =
     (if ends_with_newline src \<and> \<not> ends_with_newline entered then entered @ [newline]
      else if \<not> ends_with_newline src \<and> ends_with_newline entered then butlast entered
      else entered)"

text \<open>An item with a given source text and one translation, for concrete evaluations.\<close>

definition singular_item :: "wxString \<Rightarrow> wxString \<Rightarrow> bool \<Rightarrow> CatalogItem" where
  "singular_item src tr fuzzy =
     \<lparr>source = src, hasPlural = False, sourcePlural = [], itemTranslations = [tr],
      isFuzzy = fuzzy, isTranslated = (tr \<noteq> []), isModified = False,
      isPreTranslated = False\<rparr>"

subsection \<open>Controls, collaborators and the editing area\<close>

text \<open>
  Modelled from the spec: \<^verbatim>\<open>TranslationTextCtrl\<close> (text_control.h) and the event
  handler it inherits are not part of the source at hand. Section 6 of the specification
  asks of a slot that it holds a text and that its "text changed" notification can be
  switched off and on; the comment at lines 64-66 says that a programmatic change of the
  content generates the text event. A control is its text and the enabled flag of its
  event handler. A control made by \<^verbatim>\<open>new TranslationTextCtrl\<close> is empty and its handler is
  enabled.
\<close>

record TranslationTextCtrl =
  plainText :: wxString
  evtHandlerEnabled :: bool

definition new_TranslationTextCtrl :: TranslationTextCtrl where
  "new_TranslationTextCtrl = \<lparr>plainText = [], evtHandlerEnabled = True\<rparr>"

definition GetPlainText :: "TranslationTextCtrl \<Rightarrow> wxString" where
  "GetPlainText txt = plainText txt"

text \<open>
  The translation controls of the editing area: \<^verbatim>\<open>m_textTrans\<close>, and the elements of the
  vector \<^verbatim>\<open>m_textTransPlural\<close> by index.
\<close>

datatype ctrl = TextTrans | TextTransPlural nat

text \<open>
  The calls that leave a trace: what is done to a translation control, every entry into
  \<^verbatim>\<open>UpdateFromTextCtrl\<close>, and the calls to the collaborators (the toolbar's fuzzy
  indicator, the list control, the subscriber \<^verbatim>\<open>OnUpdatedFromTextCtrl\<close>).
\<close>

datatype call =
    EvSetEvtHandlerEnabled ctrl bool
  | EvSetPlainText ctrl wxString
  | EvSetPlainTextUserWritten ctrl wxString
  | EvUpdateFromTextCtrl
  | EvSetFuzzy bool
  | EvRefreshSelectedItems
  | EvOnUpdatedFromTextCtrl nat bool

text \<open>
  The state the functions work on. A \<^verbatim>\<open>CatalogItemPtr\<close> is an address in the store
  \<open>items\<close>; the list control's current item is an address or null. The pointers
  \<^verbatim>\<open>m_textTrans\<close> and \<^verbatim>\<open>m_pluralNotebook\<close> are null in template mode (the constructor
  calls \<^verbatim>\<open>CreateTemplateControls\<close>, which creates neither). The notebook is the list of
  its page labels; the controls of its pages are \<^verbatim>\<open>m_textTransPlural\<close>, and
  \<^verbatim>\<open>m_textTransSingularForm\<close> points to one of them, by index. Widget chrome that no
  function below reads back (syntax highlighter, fonts, tags, error bar, layout) is left
  out.
\<close>

record EditingArea =
  m_dontAutoclearFuzzyStatus :: bool
  m_textOrig :: wxString
  m_textOrigPlural :: wxString
  m_textTrans :: "TranslationTextCtrl option"
  m_textTransPlural :: "TranslationTextCtrl list"
  m_pluralNotebook :: "wxString list option"
  m_textTransSingularForm :: "nat option"
  toolbarFuzzy :: bool
  currentCatalogItem :: "nat option"
  items :: "nat \<Rightarrow> CatalogItem"
  hasOnUpdatedFromTextCtrl :: bool
  calls :: "call list"

subsection \<open>Plural-category describer\<close>

text \<open>\<^verbatim>\<open>wxString::Format("%d", i)\<close>: the decimal digits, with a sign for a negative number.\<close>

definition digit_char :: "nat \<Rightarrow> char" where
  "digit_char d = ''0123456789'' ! d"

fun decimal :: "nat \<Rightarrow> wxString" where
  "decimal n = (if n < 10 then [digit_char n] else decimal (n div 10) @ [digit_char (n mod 10)])"

declare decimal.simps [simp del]

definition format_d :: "int \<Rightarrow> wxString" where
  "format_d i = (if i < 0 then CHR ''-'' # decimal (nat (- i)) else decimal (nat i))"

text \<open>
  The two characters outside ASCII that the labels use, in UTF-8: the horizontal ellipsis
  U+2026 and the rightwards arrow U+2192.
\<close>

definition ellipsis :: wxString where
  "ellipsis = [CHR 0xE2, CHR 0x80, CHR 0xA6]"

definition arrow :: wxString where
  "arrow = [CHR 0xE2, CHR 0x86, CHR 0x92]"

definition maxExamplesCnt :: int where
  "maxExamplesCnt = 5"

text \<open>
  The scan of lines 437-453: \<open>example\<close> runs from its start value up to 999; the local
  variables \<open>examples\<close>, \<open>firstExample\<close> and \<open>examplesCnt\<close> are passed along. The
  \<^verbatim>\<open>break\<close> at the fifth example is the branch without a recursive call.
  The C \<^verbatim>\<open>int\<close>s are integers here: \<open>example\<close> stays below 1000 and
  \<open>examplesCnt\<close> at most 5, and a form index stays below the form count, so no
  increment of the code overflows.
\<close>

function scan_examples ::
  "(int \<Rightarrow> int) \<Rightarrow> int \<Rightarrow> int \<Rightarrow> wxString \<times> int \<times> int \<Rightarrow> wxString \<times> int \<times> int" where
  "scan_examples evaluate form example (examples, firstExample, examplesCnt) =
     (if example < 1000 then
        (if evaluate example = form then
           (let examplesCnt' = examplesCnt + 1;
                firstExample' = (if examplesCnt' = 1 then example else firstExample)
            in if examplesCnt' = maxExamplesCnt then
                 (examples @ ellipsis, firstExample', examplesCnt')
               else if examplesCnt' = 1 then
                 scan_examples evaluate form (example + 1)
                   (examples @ format_d example, firstExample', examplesCnt')
               else
                 scan_examples evaluate form (example + 1)
                   (examples @ '', '' @ format_d example, firstExample', examplesCnt'))
         else scan_examples evaluate form (example + 1) (examples, firstExample, examplesCnt))
      else (examples, firstExample, examplesCnt))"
  by pat_completeness auto
termination
  by (relation "measure (\<lambda>(evaluate, form, example, st). nat (1000 - example))") auto

declare scan_examples.simps [simp del]

text \<open>
  Lines 431-454: the examples found for one form. The scan runs only with a calculator
  and more than one form; otherwise the three variables keep their initial values.
\<close>

definition find_examples :: "(int \<Rightarrow> int) option \<Rightarrow> int \<Rightarrow> int \<Rightarrow> wxString \<times> int \<times> int" where
  "find_examples calc formsCount form =
     (case calc of
        Some evaluate \<Rightarrow>
          if formsCount > 1 then scan_examples evaluate form 0 ([], - 1, 0) else ([], - 1, 0)
      | None \<Rightarrow> ([], - 1, 0))"

text \<open>
  Lines 456-491: the label of one form. The messages are the untranslated ones
  (\<^verbatim>\<open>_()\<close> is the identity).
\<close>

definition describe_form :: "int \<Rightarrow> int \<Rightarrow> wxString \<times> int \<times> int \<Rightarrow> wxString" where
  "describe_form formsCount form found =
     (case found of (examples, firstExample, examplesCnt) \<Rightarrow>
        if formsCount = 1 then ''Everything''
        else if examplesCnt = 0 then ''Form '' @ format_d form
        else if examplesCnt = 1 then
          (if formsCount = 2 \<and> firstExample = 1 then ''Singular''
           else if firstExample = 0 then ''Zero''
           else if firstExample = 1 then ''One''
           else if firstExample = 2 then ''Two''
           else ''n = '' @ examples)
        else if formsCount = 2 \<and> examplesCnt = 2 \<and> firstExample = 0 \<and> examples = ''0, 1'' then
          ''Singular''
        else if formsCount = 2 \<and> firstExample \<noteq> 1 \<and> examplesCnt = maxExamplesCnt then
          (if firstExample = 0 \<or> firstExample = 2 then ''Plural'' else ''Other'')
        else ''n '' @ arrow @ '' '' @ examples)"

text \<open>
  Lines 427-505: one round of the loop over the forms adds a fresh control and a notebook
  page with the form's label, and makes the control the singular form when the form's
  only example is 1.
\<close>

definition AddPage :: "wxString \<Rightarrow> wxString list option \<Rightarrow> wxString list option" where
  "AddPage desc nb = (case nb of None \<Rightarrow> None | Some pages \<Rightarrow> Some (pages @ [desc]))"

definition recreate_form ::
  "(int \<Rightarrow> int) option \<Rightarrow> int \<Rightarrow> int \<Rightarrow> EditingArea \<Rightarrow> EditingArea" where
  "recreate_form calc formsCount form s =
     (case find_examples calc formsCount form of (examples, firstExample, examplesCnt) \<Rightarrow>
        (let desc = describe_form formsCount form (examples, firstExample, examplesCnt);
             txt = length (m_textTransPlural s);
             s1 = s\<lparr>m_textTransPlural := m_textTransPlural s @ [new_TranslationTextCtrl],
                    m_pluralNotebook := AddPage desc (m_pluralNotebook s)\<rparr>
         in if examplesCnt = 1 \<and> firstExample = 1
            then s1\<lparr>m_textTransSingularForm := Some txt\<rparr>
            else s1))"

function recreate_forms ::
  "(int \<Rightarrow> int) option \<Rightarrow> int \<Rightarrow> int \<Rightarrow> EditingArea \<Rightarrow> EditingArea" where
  "recreate_forms calc formsCount form s =
     (if form < formsCount
      then recreate_forms calc formsCount (form + 1) (recreate_form calc formsCount form s)
      else s)"
  by pat_completeness auto
termination
  by (relation "measure (\<lambda>(calc, formsCount, form, s). nat (formsCount - form))") auto

declare recreate_forms.simps [simp del]

text \<open>
  \<^verbatim>\<open>RecreatePluralTextCtrls\<close> (lines 415-511). The catalog is read twice: for the
  calculator made from its Plural-Forms header (null when the header does not parse) and
  for its number of plural forms; the two values stand for the catalog.
\<close>

definition RecreatePluralTextCtrls ::
  "(int \<Rightarrow> int) option \<Rightarrow> int \<Rightarrow> EditingArea \<Rightarrow> EditingArea" where
  "RecreatePluralTextCtrls calc formsCount s =
     (if m_pluralNotebook s = None then s
      else
        (let s1 = s\<lparr>m_textTransPlural := [], m_pluralNotebook := Some [],
                     m_textTransSingularForm := None\<rparr>;
             s2 = recreate_forms calc formsCount 0 s1
         in if m_textTransSingularForm s2 = None \<and> m_textTransPlural s2 \<noteq> []
            then s2\<lparr>m_textTransSingularForm := Some 0\<rparr>
            else s2))"

subsection \<open>Pull: from the controls to the item\<close>

text \<open>
  Lines 674-681: the loop over the plural controls collects the processed texts in
  \<open>str\<close> and clears \<open>allTranslated\<close> at an empty one.
\<close>

fun read_plurals ::
  "CatalogItem \<Rightarrow> TranslationTextCtrl list \<Rightarrow> wxString list \<times> bool \<Rightarrow> wxString list \<times> bool" where
  "read_plurals item [] (str, allTranslated) = (str, allTranslated)"
| "read_plurals item (txt # rest) (str, allTranslated) =
     (let val = PreprocessEnteredTextForItem item (GetPlainText txt)
      in read_plurals item rest (str @ [val], if val = [] then False else allTranslated))"

text \<open>
  Lines 669-701: the texts are read and, where they differ from the stored ones, written
  into the item. The result is \<open>allTranslated\<close>, \<open>anyTransChanged\<close> and the item as
  it is then; \<open>None\<close> is the dereference of the null \<^verbatim>\<open>m_textTrans\<close> at line 691.
\<close>

definition pull_translations ::
  "EditingArea \<Rightarrow> CatalogItem \<Rightarrow> (bool \<times> bool \<times> CatalogItem) option" where
  "pull_translations s item =
     (if HasPlural item then
        (case read_plurals item (m_textTransPlural s) ([], True) of
           (str, allTranslated) \<Rightarrow>
             if str \<noteq> GetTranslations item
             then Some (allTranslated, True, SetTranslations str item)
             else Some (allTranslated, False, item))
      else
        (case m_textTrans s of
           None \<Rightarrow> None
         | Some txt \<Rightarrow>
             (let newval = PreprocessEnteredTextForItem item (GetPlainText txt);
                  allTranslated = (newval \<noteq> [])
              in if newval \<noteq> GetTranslation item 0
                 then Some (allTranslated, True, SetTranslation newval item)
                 else Some (allTranslated, False, item))))"

text \<open>
  \<^verbatim>\<open>UpdateFromTextCtrl\<close> (lines 659-733). The item is changed in place, so the store is
  updated where the code assigns. The calls to the toolbar, the list control and the
  subscriber (if one is installed) are appended to the trace in the order of the code.
\<close>

definition UpdateFromTextCtrl :: "EditingArea \<Rightarrow> EditingArea option" where
  "UpdateFromTextCtrl s0 =
     (let s = s0\<lparr>calls := calls s0 @ [EvUpdateFromTextCtrl]\<rparr> in
      case currentCatalogItem s of
        None \<Rightarrow> Some s
      | Some p \<Rightarrow>
          (let item = items s p;
               newfuzzy = toolbarFuzzy s;
               oldIsTranslated = IsTranslated item
           in case pull_translations s item of
                None \<Rightarrow> None
              | Some (allTranslated, anyTransChanged, item1) \<Rightarrow>
                  (let s1 = s\<lparr>items := (items s)(p := item1)\<rparr> in
                   if IsFuzzy item1 = newfuzzy \<and> \<not> anyTransChanged then Some s1
                   else
                     (let newfuzzy' =
                            (if newfuzzy = IsFuzzy item1 \<and> \<not> m_dontAutoclearFuzzyStatus s1
                             then False else newfuzzy);
                          fuzzyChanged = (IsFuzzy item1 \<noteq> newfuzzy');
                          item2 = (if fuzzyChanged then SetFuzzy newfuzzy' item1 else item1);
                          translatedChanged = (oldIsTranslated \<noteq> allTranslated);
                          item3 = (if translatedChanged then SetTranslated allTranslated item2
                                   else item2);
                          statisticsChanged = (fuzzyChanged \<or> translatedChanged);
                          item4 = SetPreTranslated False (SetModified True item3)
                      in Some (s1\<lparr>toolbarFuzzy := newfuzzy',
                                  items := (items s1)(p := item4),
                                  calls := calls s1 @ [EvSetFuzzy newfuzzy', EvRefreshSelectedItems]
                                    @ (if hasOnUpdatedFromTextCtrl s1
                                       then [EvOnUpdatedFromTextCtrl p statisticsChanged]
                                       else [])\<rparr>)))))"

subsection \<open>Push: from the item to the controls\<close>

text \<open>Reading and replacing a translation control; a plural control past the end is none.\<close>

fun GetCtrl :: "ctrl \<Rightarrow> EditingArea \<Rightarrow> TranslationTextCtrl option" where
  "GetCtrl TextTrans s = m_textTrans s"
| "GetCtrl (TextTransPlural i) s =
     (if i < length (m_textTransPlural s) then Some (m_textTransPlural s ! i) else None)"

fun PutCtrl :: "ctrl \<Rightarrow> TranslationTextCtrl \<Rightarrow> EditingArea \<Rightarrow> EditingArea" where
  "PutCtrl TextTrans txt s = s\<lparr>m_textTrans := Some txt\<rparr>"
| "PutCtrl (TextTransPlural i) txt s =
     s\<lparr>m_textTransPlural := (m_textTransPlural s)[i := txt]\<rparr>"

text \<open>
  Modelled from the spec: the methods of \<^verbatim>\<open>TranslationTextCtrl\<close> and of its event
  handler are not part of the source at hand. \<^verbatim>\<open>SetEvtHandlerEnabled\<close> sets the flag.
  \<^verbatim>\<open>SetPlainText\<close> and \<^verbatim>\<open>SetPlainTextUserWritten\<close> replace the text, which generates the
  text event; when the control's handler is enabled, the event reaches the function bound
  at lines 294 and 499, which calls \<^verbatim>\<open>UpdateFromTextCtrl\<close> before the write returns. A
  call on a control that does not exist is \<open>None\<close>.
\<close>

definition SetEvtHandlerEnabled :: "ctrl \<Rightarrow> bool \<Rightarrow> EditingArea \<Rightarrow> EditingArea option" where
  "SetEvtHandlerEnabled c b s =
     (case GetCtrl c s of
        None \<Rightarrow> None
      | Some txt \<Rightarrow>
          Some (PutCtrl c (txt\<lparr>evtHandlerEnabled := b\<rparr>)
                  (s\<lparr>calls := calls s @ [EvSetEvtHandlerEnabled c b]\<rparr>)))"

definition SetPlainText :: "ctrl \<Rightarrow> wxString \<Rightarrow> EditingArea \<Rightarrow> EditingArea option" where
  "SetPlainText c v s =
     (case GetCtrl c s of
        None \<Rightarrow> None
      | Some txt \<Rightarrow>
          (let s1 = PutCtrl c (txt\<lparr>plainText := v\<rparr>) (s\<lparr>calls := calls s @ [EvSetPlainText c v]\<rparr>)
           in if evtHandlerEnabled txt then UpdateFromTextCtrl s1 else Some s1))"

definition SetPlainTextUserWritten :: "ctrl \<Rightarrow> wxString \<Rightarrow> EditingArea \<Rightarrow> EditingArea option" where
  "SetPlainTextUserWritten c v s =
     (case GetCtrl c s of
        None \<Rightarrow> None
      | Some txt \<Rightarrow>
          (let s1 = PutCtrl c (txt\<lparr>plainText := v\<rparr>)
                      (s\<lparr>calls := calls s @ [EvSetPlainTextUserWritten c v]\<rparr>)
           in if evtHandlerEnabled txt then UpdateFromTextCtrl s1 else Some s1))"

text \<open>
  \<^verbatim>\<open>EventHandlerDisabler\<close> (lines 52-60) and \<^verbatim>\<open>SetTranslationValue\<close> (lines 62-73): the
  guard's constructor runs first and its destructor last. The value of the flag
  \<^verbatim>\<open>EditingArea::UndoableEdit\<close> is declared in a header that is not part of the source at
  hand; it is the parameter \<open>UndoableEdit\<close>.
\<close>

definition EventHandlerDisabler_ctor :: "ctrl \<Rightarrow> EditingArea \<Rightarrow> EditingArea option" where
  "EventHandlerDisabler_ctor h s = SetEvtHandlerEnabled h False s"

definition EventHandlerDisabler_dtor :: "ctrl \<Rightarrow> EditingArea \<Rightarrow> EditingArea option" where
  "EventHandlerDisabler_dtor h s = SetEvtHandlerEnabled h True s"

definition SetTranslationValue ::
  "int \<Rightarrow> ctrl \<Rightarrow> wxString \<Rightarrow> int \<Rightarrow> EditingArea \<Rightarrow> EditingArea option" where
  "SetTranslationValue UndoableEdit txt v flags s =
     (case EventHandlerDisabler_ctor txt s of
        None \<Rightarrow> None
      | Some s1 \<Rightarrow>
          (case (if flags AND UndoableEdit \<noteq> 0
                 then SetPlainTextUserWritten txt v s1
                 else SetPlainText txt v s1) of
             None \<Rightarrow> None
           | Some s2 \<Rightarrow> EventHandlerDisabler_dtor txt s2))"

text \<open>
  Lines 609-611: every plural control is emptied. The \<^verbatim>\<open>unsigned\<close> counters are natural
  numbers: they count up to the size of a vector.
\<close>

function clear_plurals ::
  "int \<Rightarrow> int \<Rightarrow> nat \<Rightarrow> nat \<Rightarrow> EditingArea \<Rightarrow> EditingArea option" where
  "clear_plurals UndoableEdit flags formsCnt j s =
     (if j < formsCnt then
        (case SetTranslationValue UndoableEdit (TextTransPlural j) wxEmptyString flags s of
           None \<Rightarrow> None
         | Some s' \<Rightarrow> clear_plurals UndoableEdit flags formsCnt (j + 1) s')
      else Some s)"
  by pat_completeness auto
termination
  by (relation "measure (\<lambda>(UndoableEdit, flags, formsCnt, j, s). formsCnt - j)") auto

declare clear_plurals.simps [simp del]

text \<open>
  Lines 613-617: the stored translations are written, as far as there are controls and
  translations. The item is read through its pointer in every round, as the loop's
  condition and body do.
\<close>

function write_plurals ::
  "int \<Rightarrow> nat \<Rightarrow> int \<Rightarrow> nat \<Rightarrow> nat \<Rightarrow> EditingArea \<Rightarrow> EditingArea option" where
  "write_plurals UndoableEdit item flags formsCnt i s =
     (if i < min formsCnt (GetNumberOfTranslations (items s item)) then
        (case SetTranslationValue UndoableEdit (TextTransPlural i)
                (GetTranslation (items s item) i) flags s of
           None \<Rightarrow> None
         | Some s' \<Rightarrow> write_plurals UndoableEdit item flags formsCnt (i + 1) s')
      else Some s)"
  by pat_completeness auto
termination
  by (relation "measure (\<lambda>(UndoableEdit, item, flags, formsCnt, i, s). formsCnt - i)") auto

declare write_plurals.simps [simp del]

text \<open>
  \<^verbatim>\<open>UpdateToTextCtrl\<close> (lines 590-656): \<open>item\<close> is the address of the item to show.
  The source controls only show a text; the assignment at line 655 is last.
\<close>

definition UpdateToTextCtrl :: "int \<Rightarrow> nat \<Rightarrow> int \<Rightarrow> EditingArea \<Rightarrow> EditingArea option" where
  "UpdateToTextCtrl UndoableEdit item flags s =
     (let s1 = s\<lparr>m_textOrig := GetString (items s item)\<rparr> in
      case (if HasPlural (items s1 item) then
              (let s2 = s1\<lparr>m_textOrigPlural := GetPluralString (items s1 item)\<rparr>;
                   formsCnt = length (m_textTransPlural s2)
               in case clear_plurals UndoableEdit flags formsCnt 0 s2 of
                    None \<Rightarrow> None
                  | Some s3 \<Rightarrow> write_plurals UndoableEdit item flags formsCnt 0 s3)
            else if m_textTrans s1 \<noteq> None then
              SetTranslationValue UndoableEdit TextTrans (GetTranslation (items s1 item) 0) flags s1
            else Some s1) of
        None \<Rightarrow> None
      | Some s4 \<Rightarrow> Some (s4\<lparr>m_dontAutoclearFuzzyStatus := False\<rparr>))"

text \<open>A push followed at once by a pull.\<close>

definition push_then_pull :: "int \<Rightarrow> nat \<Rightarrow> int \<Rightarrow> EditingArea \<Rightarrow> EditingArea option" where
  "push_then_pull UndoableEdit item flags s =
     (case UpdateToTextCtrl UndoableEdit item flags s of
        None \<Rightarrow> None
      | Some s1 \<Rightarrow> UpdateFromTextCtrl s1)"

subsection \<open>The vocabulary of the claims about a pull\<close>

text \<open>
  The processed texts of the controls that a pull reads for an item: every plural control
  for an item with a plural, the translation control (if it exists) otherwise.
\<close>

definition normalized_slot_texts :: "EditingArea \<Rightarrow> CatalogItem \<Rightarrow> wxString list" where
  "normalized_slot_texts s item =
     map (\<lambda>txt. PreprocessEnteredTextForItem item (GetPlainText txt))
       (if HasPlural item then m_textTransPlural s
        else (case m_textTrans s of None \<Rightarrow> [] | Some txt \<Rightarrow> [txt]))"

text \<open>What a pull compares them with: all translations, or the first one.\<close>

definition stored_translations :: "CatalogItem \<Rightarrow> wxString list" where
  "stored_translations item =
     (if HasPlural item then GetTranslations item else [GetTranslation item 0])"

text \<open>The item after lines 683-700, which assign the texts only where they differ.\<close>

definition store_translations :: "wxString list \<Rightarrow> CatalogItem \<Rightarrow> CatalogItem" where
  "store_translations ts item =
     (if ts = stored_translations item then item
      else if HasPlural item then SetTranslations ts item
      else SetTranslation (hd ts) item)"

text \<open>The fuzzy state after lines 711-712.\<close>

definition autoclear :: "EditingArea \<Rightarrow> CatalogItem \<Rightarrow> bool" where
  "autoclear s item =
     (if toolbarFuzzy s = IsFuzzy item \<and> \<not> m_dontAutoclearFuzzyStatus s then False
      else toolbarFuzzy s)"

text \<open>The item after lines 716-727 of a pull that does not return at line 705.\<close>

definition accepted_item :: "EditingArea \<Rightarrow> CatalogItem \<Rightarrow> bool \<Rightarrow> CatalogItem" where
  "accepted_item s item newfuzzy =
     (let allTranslated = list_all (\<lambda>t. t \<noteq> []) (normalized_slot_texts s item);
          item1 = store_translations (normalized_slot_texts s item) item;
          item2 = (if IsFuzzy item \<noteq> newfuzzy then SetFuzzy newfuzzy item1 else item1);
          item3 = (if IsTranslated item \<noteq> allTranslated then SetTranslated allTranslated item2
                   else item2)
      in SetPreTranslated False (SetModified True item3))"

subsection \<open>The vocabulary of the claims about a push\<close>

text \<open>A control after \<^verbatim>\<open>SetTranslationValue\<close>: the value, and the handler enabled.\<close>

definition written_ctrl :: "wxString \<Rightarrow> TranslationTextCtrl" where
  "written_ctrl v = \<lparr>plainText = v, evtHandlerEnabled = True\<rparr>"

text \<open>The trace of one \<^verbatim>\<open>SetTranslationValue\<close>: disable, write, enable.\<close>

definition set_value_calls :: "int \<Rightarrow> ctrl \<Rightarrow> wxString \<Rightarrow> int \<Rightarrow> call list" where
  "set_value_calls UndoableEdit c v flags =
     [EvSetEvtHandlerEnabled c False,
      if flags AND UndoableEdit \<noteq> 0 then EvSetPlainTextUserWritten c v else EvSetPlainText c v,
      EvSetEvtHandlerEnabled c True]"

text \<open>
  The trace of a push: for an item with a plural, the clearing of every plural control
  and then the writing of the stored translations that have a control; otherwise the
  writing of the first translation, if the translation control exists.
\<close>

definition push_calls :: "int \<Rightarrow> int \<Rightarrow> EditingArea \<Rightarrow> CatalogItem \<Rightarrow> call list" where
  "push_calls UndoableEdit flags s item =
     (if HasPlural item then
        concat (map (\<lambda>j. set_value_calls UndoableEdit (TextTransPlural j) [] flags)
                  [0..<length (m_textTransPlural s)])
        @ concat (map (\<lambda>i. set_value_calls UndoableEdit (TextTransPlural i)
                                (GetTranslations item ! i) flags)
                  [0..<min (length (m_textTransPlural s)) (length (GetTranslations item))])
      else if m_textTrans s \<noteq> None then
        set_value_calls UndoableEdit TextTrans (GetTranslation item 0) flags
      else [])"

text \<open>The item at an address after a call that may have failed.\<close>

definition item_after :: "nat \<Rightarrow> EditingArea option \<Rightarrow> CatalogItem option" where
  "item_after p r = map_option (\<lambda>s. items s p) r"

text \<open>
  The editing area as the constructor leaves it in edit mode (lines 208-311): the
  translation control and the notebook exist, no plural controls yet, the fuzzy
  auto-clear is not suppressed. The list control's current item is the item at address
  \<open>0\<close>, the toolbar shows its fuzzy flag, and a subscriber is installed.
\<close>

definition edit_mode_area :: "CatalogItem \<Rightarrow> EditingArea" where
  "edit_mode_area item =
     \<lparr>m_dontAutoclearFuzzyStatus = False, m_textOrig = [], m_textOrigPlural = [],
      m_textTrans = Some new_TranslationTextCtrl, m_textTransPlural = [],
      m_pluralNotebook = Some [], m_textTransSingularForm = None,
      toolbarFuzzy = isFuzzy item, currentCatalogItem = Some 0, items = (\<lambda>p. item),
      hasOnUpdatedFromTextCtrl = True, calls = []\<rparr>"

text \<open>
  The same editing area with given texts in its controls: \<open>text\<close> in the translation
  control and one plural control, with its notebook page, for each of \<open>plural_texts\<close>.
\<close>

definition showing :: "CatalogItem \<Rightarrow> wxString \<Rightarrow> wxString list \<Rightarrow> EditingArea" where
  "showing item text plural_texts =
     (edit_mode_area item)
       \<lparr>m_textTrans := Some \<lparr>plainText = text, evtHandlerEnabled = True\<rparr>,
        m_textTransPlural := map (\<lambda>t. \<lparr>plainText = t, evtHandlerEnabled = True\<rparr>) plural_texts,
        m_pluralNotebook := Some (map (\<lambda>f. ''Form '' @ format_d (int f)) [0..<length plural_texts])\<rparr>"

text \<open>An item with a plural and the given translations.\<close>

definition plural_item :: "wxString \<Rightarrow> wxString \<Rightarrow> wxString list \<Rightarrow> bool \<Rightarrow> CatalogItem" where
  "plural_item src src_plural trs fuzzy =
     \<lparr>source = src, hasPlural = True, sourcePlural = src_plural, itemTranslations = trs,
      isFuzzy = fuzzy, isTranslated = list_all (\<lambda>t. t \<noteq> []) trs, isModified = False,
      isPreTranslated = False\<rparr>"

text \<open>
  The editing area showing the fuzzy item "Hello" with the translation "Hi", after the
  user has typed a line feed at the end of the translation control.
\<close>

definition typed_newline_area :: EditingArea where
  "typed_newline_area = showing (singular_item ''Hello'' ''Hi'' True) (''Hi'' @ [newline]) []"

text \<open>
  The editing area of an item whose stored translation "Hi\n" ends with a line feed that
  its source "Hello" does not have (as a catalog file may contain it); the item is fuzzy
  and the toolbar shows it.
\<close>

definition unnormalized_area :: EditingArea where
  "unnormalized_area = showing (singular_item ''Hello'' (''Hi'' @ [newline]) True) [] []"

text \<open>The evaluator of an English-like grammar: \<^verbatim>\<open>n == 1 ? 0 : 1\<close>.\<close>

definition english_like :: "int \<Rightarrow> int" where
  "english_like n = (if n = 1 then 0 else 1)"

section \<open>Entered-text normalization\<close>

text \<open>
  C5, as stated, fails: the specification's rule applied to every source and every entered
  text appends a newline to an empty entered text when the source ends with one; the code
  leaves an empty entered text empty.
\<close>

theorem C5_normalization_counterexample:
  "PreprocessEnteredTextForItem (singular_item (''Hello'' @ [newline]) [] False) []
     \<noteq> spec_entered_text_normalization (''Hello'' @ [newline]) []"
  by (simp add: PreprocessEnteredTextForItem_def spec_entered_text_normalization_def
      ends_with_newline_def GetString_def singular_item_def newline_def)

text \<open>
  C5, amended: when the entered text and the source text are both non-empty, the
  normalization appends one newline if the source ends with a newline and the entered
  text does not, removes exactly one trailing newline if the source does not end with a
  newline and the entered text does, and returns the entered text unchanged otherwise.
  In particular source "Hello\n" with entered "Hi" gives "Hi\n", and source "Hello" with
  entered "Hi\n" gives "Hi".
\<close>

theorem C5_normalization_nonempty:
  "(t \<noteq> [] \<and> GetString item \<noteq> [] \<longrightarrow>
      PreprocessEnteredTextForItem item t = spec_entered_text_normalization (GetString item) t)
   \<and> PreprocessEnteredTextForItem (singular_item (''Hello'' @ [newline]) [] False) ''Hi''
        = ''Hi'' @ [newline]
   \<and> PreprocessEnteredTextForItem (singular_item ''Hello'' [] False) (''Hi'' @ [newline])
        = ''Hi''"
  by (simp add: PreprocessEnteredTextForItem_def spec_entered_text_normalization_def
      ends_with_newline_def GetString_def singular_item_def newline_def Let_def)

theorem C5_normalization_nonempty_witness:
  "PreprocessEnteredTextForItem (singular_item ''Hello'' ''x'' False) (''Hi'' @ [newline, newline])
     = ''Hi'' @ [newline]"
  using C5_normalization_nonempty
    [of "''Hi'' @ [newline, newline]" "singular_item ''Hello'' ''x'' False"]
  by (simp add: spec_entered_text_normalization_def ends_with_newline_def GetString_def
      singular_item_def newline_def)

section \<open>The describer\<close>

text \<open>A scan over samples none of which evaluates to the form changes nothing.\<close>

lemma scan_examples_skip:
  "(\<And>n. example \<le> n \<Longrightarrow> n < 1000 \<Longrightarrow> evaluate n \<noteq> form) \<Longrightarrow>
   scan_examples evaluate form example st = st"
proof (induction evaluate form example st rule: scan_examples.induct)
  case (1 evaluate form example examples firstExample examplesCnt)
  show ?case
  proof (cases "example < 1000")
    case True
    with "1.prems" have ne: "evaluate example \<noteq> form" by simp
    have "scan_examples evaluate form (example + 1) (examples, firstExample, examplesCnt)
            = (examples, firstExample, examplesCnt)"
      using True ne "1.prems" by (intro "1.IH"(3)) auto
    with True ne show ?thesis by (simp add: scan_examples.simps)
  next
    case False
    then show ?thesis by (simp add: scan_examples.simps)
  qed
qed

lemma english_like_values:
  "english_like 0 = 1" "english_like 1 = 0" "english_like 2 = 1" "english_like 3 = 1"
  "english_like 4 = 1" "english_like 5 = 1"
  by (simp_all add: english_like_def)

lemma english_form0: "find_examples (Some english_like) 2 0 = (''1'', 1, 1)"
proof -
  have skip: "scan_examples english_like 0 2 (''1'', 1, 1) = (''1'', 1, 1)"
    by (rule scan_examples_skip) (simp add: english_like_def)
  show ?thesis
    by (simp add: find_examples_def scan_examples.simps [of _ _ 0] scan_examples.simps [of _ _ 1]
        english_like_values maxExamplesCnt_def format_d_def decimal.simps digit_char_def skip)
qed

lemma english_form1: "find_examples (Some english_like) 2 1 = (''0, 2, 3, 4'' @ ellipsis, 0, 5)"
  by (simp add: find_examples_def scan_examples.simps [of _ _ 0] scan_examples.simps [of _ _ 1]
      scan_examples.simps [of _ _ 2] scan_examples.simps [of _ _ 3] scan_examples.simps [of _ _ 4]
      scan_examples.simps [of _ _ 5]
        english_like_values maxExamplesCnt_def format_d_def decimal.simps digit_char_def)

lemma english_labels:
  "describe_form 2 0 (find_examples (Some english_like) 2 0) = ''Singular''"
  "describe_form 2 1 (find_examples (Some english_like) 2 1) = ''Plural''"
  by (simp_all add: english_form0 english_form1 describe_form_def maxExamplesCnt_def)

lemma recreate_form_pages:
  "m_pluralNotebook s = Some ps \<Longrightarrow>
   m_pluralNotebook (recreate_form calc formsCount form s)
     = Some (ps @ [describe_form formsCount form (find_examples calc formsCount form)])"
  by (simp add: recreate_form_def AddPage_def Let_def split: prod.splits)

lemma recreate_form_length:
  "length (m_textTransPlural (recreate_form calc formsCount form s))
     = Suc (length (m_textTransPlural s))"
  by (simp add: recreate_form_def Let_def split: prod.splits)

lemma recreate_forms_pages:
  "m_pluralNotebook s = Some ps \<Longrightarrow>
   m_pluralNotebook (recreate_forms calc formsCount form s)
     = Some (ps @ map (\<lambda>f. describe_form formsCount f (find_examples calc formsCount f))
                   [form..formsCount - 1])"
proof (induction calc formsCount form s arbitrary: ps rule: recreate_forms.induct)
  case (1 calc formsCount form s)
  show ?case
  proof (cases "form < formsCount")
    case True
    then have up: "[form..formsCount - 1] = form # [form + 1..formsCount - 1]"
      by (simp add: upto_rec1)
    from True show ?thesis
      by (subst recreate_forms.simps)
        (simp add: up "1.IH" [OF True recreate_form_pages [OF "1.prems"]])
  next
    case False
    then show ?thesis using "1.prems" by (simp add: recreate_forms.simps)
  qed
qed

lemma recreate_forms_length:
  "length (m_textTransPlural (recreate_forms calc formsCount form s))
     = length (m_textTransPlural s) + nat (formsCount - form)"
proof (induction calc formsCount form s rule: recreate_forms.induct)
  case (1 calc formsCount form s)
  show ?case
  proof (cases "form < formsCount")
    case True
    then have "Suc (nat (formsCount - (form + 1))) = nat (formsCount - form)" by arith
    with True show ?thesis
      by (subst recreate_forms.simps) (simp add: "1.IH" [OF True] recreate_form_length)
  next
    case False
    then show ?thesis by (simp add: recreate_forms.simps)
  qed
qed

lemma RecreatePluralTextCtrls_pages:
  "m_pluralNotebook s \<noteq> None \<Longrightarrow>
   m_pluralNotebook (RecreatePluralTextCtrls calc formsCount s)
     = Some (map (\<lambda>f. describe_form formsCount f (find_examples calc formsCount f))
               [0..formsCount - 1])"
  by (cases "m_pluralNotebook s") (simp_all add: RecreatePluralTextCtrls_def Let_def recreate_forms_pages)

lemma RecreatePluralTextCtrls_length:
  "m_pluralNotebook s \<noteq> None \<Longrightarrow>
   length (m_textTransPlural (RecreatePluralTextCtrls calc formsCount s)) = nat formsCount"
  by (cases "m_pluralNotebook s") (simp_all add: RecreatePluralTextCtrls_def Let_def recreate_forms_length)

lemma no_calc_label:
  "1 < formsCount \<Longrightarrow>
   describe_form formsCount f (find_examples None formsCount f) = ''Form '' @ format_d f"
  by (simp add: describe_form_def find_examples_def)

lemma one_form_label:
  "describe_form 1 f (find_examples calc 1 f) = ''Everything''"
  by (simp add: describe_form_def split: prod.splits)

text \<open>
  C8: with two forms and the English-like evaluator, rebuilding the plural controls of an
  editing area that has its notebook labels the pages exactly "Singular" and "Plural":
  form 0 has the single example 1; form 1 has first example 0 and five examples (0, 2, 3,
  4 listed, the fifth ends the scan with the ellipsis).
\<close>

theorem C8_english_like_labels:
  assumes "m_pluralNotebook s \<noteq> None"
  shows "m_pluralNotebook (RecreatePluralTextCtrls (Some english_like) 2 s)
           = Some [''Singular'', ''Plural'']
         \<and> find_examples (Some english_like) 2 0 = (''1'', 1, 1)
         \<and> find_examples (Some english_like) 2 1 = (''0, 2, 3, 4'' @ ellipsis, 0, 5)"
proof -
  have "[0..2 - 1] = [0, 1::int]"
    by (simp add: upto_rec1)
  with assms have "m_pluralNotebook (RecreatePluralTextCtrls (Some english_like) 2 s)
      = Some [''Singular'', ''Plural'']"
    by (simp add: RecreatePluralTextCtrls_pages english_labels)
  then show ?thesis
    by (simp add: english_form0 english_form1)
qed

theorem C8_english_like_labels_witness:
  "m_pluralNotebook
     (RecreatePluralTextCtrls (Some english_like) 2 (edit_mode_area (singular_item ''Hello'' [] False)))
     = Some [''Singular'', ''Plural'']"
  using C8_english_like_labels [of "edit_mode_area (singular_item ''Hello'' [] False)"]
  by (simp add: edit_mode_area_def)

text \<open>
  C9: without an evaluator and with more than one form, rebuilding the plural controls of
  an editing area that has its notebook gives one page and one control per form, the page
  of form \<open>f\<close> labelled "Form f"; with one form the single page is labelled
  "Everything", whatever the evaluator. (The function is total: the rebuild cannot fail.)
\<close>

theorem C9_fallback_labels:
  assumes "m_pluralNotebook s \<noteq> None"
  shows "(1 < formsCount \<longrightarrow>
            m_pluralNotebook (RecreatePluralTextCtrls None formsCount s)
              = Some (map (\<lambda>f. ''Form '' @ format_d f) [0..formsCount - 1])
            \<and> length (m_textTransPlural (RecreatePluralTextCtrls None formsCount s))
              = nat formsCount)
         \<and> m_pluralNotebook (RecreatePluralTextCtrls calc 1 s) = Some [''Everything'']
         \<and> length (m_textTransPlural (RecreatePluralTextCtrls calc 1 s)) = 1"
  using assms
  by (simp add: RecreatePluralTextCtrls_pages RecreatePluralTextCtrls_length no_calc_label
      one_form_label)

theorem C9_fallback_labels_witness:
  "m_pluralNotebook
     (RecreatePluralTextCtrls None 3 (edit_mode_area (singular_item ''Hello'' [] False)))
     = Some [''Form 0'', ''Form 1'', ''Form 2'']
   \<and> length (m_textTransPlural
       (RecreatePluralTextCtrls None 3 (edit_mode_area (singular_item ''Hello'' [] False)))) = 3
   \<and> m_pluralNotebook
     (RecreatePluralTextCtrls (Some english_like) 1 (edit_mode_area (singular_item ''Hello'' [] False)))
     = Some [''Everything'']"
proof -
  have "[0..3 - 1] = [0, 1, 2::int]"
    by (simp add: upto_rec1)
  then show ?thesis
    using C9_fallback_labels [of "edit_mode_area (singular_item ''Hello'' [] False)" 3 "Some english_like"]
    by (simp add: edit_mode_area_def format_d_def decimal.simps digit_char_def)
qed

section \<open>Pull\<close>

text \<open>The loop over the plural controls, in closed form.\<close>

lemma read_plurals_eq:
  "read_plurals item ctrls (str, allTranslated)
     = (str @ map (\<lambda>txt. PreprocessEnteredTextForItem item (GetPlainText txt)) ctrls,
        allTranslated \<and>
        list_all (\<lambda>t. t \<noteq> []) (map (\<lambda>txt. PreprocessEnteredTextForItem item (GetPlainText txt)) ctrls))"
  by (induction ctrls arbitrary: str allTranslated) (auto simp: Let_def)

lemma pull_translations_eq:
  assumes "HasPlural item \<or> m_textTrans s \<noteq> None"
  shows "pull_translations s item
           = Some (list_all (\<lambda>t. t \<noteq> []) (normalized_slot_texts s item),
                   normalized_slot_texts s item \<noteq> stored_translations item,
                   store_translations (normalized_slot_texts s item) item)"
  using assms
  by (auto simp: pull_translations_def read_plurals_eq normalized_slot_texts_def
      stored_translations_def store_translations_def Let_def)

lemma stored_store_translations:
  "length ts = 1 \<or> HasPlural item \<Longrightarrow>
   stored_translations (store_translations ts item) = ts"
  by (cases ts) (auto simp: stored_translations_def store_translations_def SetTranslations_def SetTranslation_def
      GetTranslations_def GetTranslation_def HasPlural_def)

lemma store_translations_fields:
  "source (store_translations ts item) = source item"
  "hasPlural (store_translations ts item) = hasPlural item"
  "isFuzzy (store_translations ts item) = isFuzzy item"
  "isTranslated (store_translations ts item) = isTranslated item"
  "isModified (store_translations ts item) = isModified item"
  "isPreTranslated (store_translations ts item) = isPreTranslated item"
  by (simp_all add: store_translations_def SetTranslations_def SetTranslation_def)

lemma noop_pull:
  assumes "currentCatalogItem s = Some p"
    and "HasPlural (items s p) \<or> m_textTrans s \<noteq> None"
    and "toolbarFuzzy s = IsFuzzy (items s p)"
    and "normalized_slot_texts s (items s p) = stored_translations (items s p)"
  shows "UpdateFromTextCtrl s = Some (s\<lparr>calls := calls s @ [EvUpdateFromTextCtrl]\<rparr>)"
proof -
  let ?s = "s\<lparr>calls := calls s @ [EvUpdateFromTextCtrl]\<rparr>"
  have nst: "normalized_slot_texts ?s (items s p) = normalized_slot_texts s (items s p)"
    by (simp add: normalized_slot_texts_def)
  have "pull_translations ?s (items s p)
      = Some (list_all (\<lambda>t. t \<noteq> []) (normalized_slot_texts s (items s p)), False, items s p)"
    using assms(2,4) by (simp add: pull_translations_eq nst store_translations_def)
  then show ?thesis
    using assms(1,3) by (simp add: UpdateFromTextCtrl_def Let_def)
qed


lemma accepted_item_fields:
  "isFuzzy (accepted_item s item nf) = nf"
  "isTranslated (accepted_item s item nf)
     = list_all (\<lambda>t. t \<noteq> []) (normalized_slot_texts s item)"
  "isModified (accepted_item s item nf) = True"
  "isPreTranslated (accepted_item s item nf) = False"
  "source (accepted_item s item nf) = source item"
  "hasPlural (accepted_item s item nf) = hasPlural item"
  "itemTranslations (accepted_item s item nf)
     = itemTranslations (store_translations (normalized_slot_texts s item) item)"
  by (auto simp: accepted_item_def Let_def SetPreTranslated_def SetModified_def SetTranslated_def
      SetFuzzy_def IsFuzzy_def IsTranslated_def store_translations_fields)

lemma accepted_pull:
  assumes bound: "currentCatalogItem s = Some p"
    and ctrl: "HasPlural (items s p) \<or> m_textTrans s \<noteq> None"
    and acc: "toolbarFuzzy s \<noteq> IsFuzzy (items s p)
              \<or> normalized_slot_texts s (items s p) \<noteq> stored_translations (items s p)"
  shows "UpdateFromTextCtrl s
    = Some (s\<lparr>toolbarFuzzy := autoclear s (items s p),
              items := (items s)(p := accepted_item s (items s p) (autoclear s (items s p))),
              calls := calls s @ [EvUpdateFromTextCtrl, EvSetFuzzy (autoclear s (items s p)),
                                  EvRefreshSelectedItems]
                @ (if hasOnUpdatedFromTextCtrl s
                   then [EvOnUpdatedFromTextCtrl p
                           (IsFuzzy (items s p) \<noteq> autoclear s (items s p)
                            \<or> IsTranslated (items s p)
                                \<noteq> list_all (\<lambda>t. t \<noteq> []) (normalized_slot_texts s (items s p)))]
                   else [])\<rparr>)"
proof -
  let ?s = "s\<lparr>calls := calls s @ [EvUpdateFromTextCtrl]\<rparr>"
  let ?item = "items s p"
  let ?nst = "normalized_slot_texts s ?item"
  let ?item1 = "store_translations ?nst ?item"
  have nst: "normalized_slot_texts ?s ?item = ?nst"
    by (simp add: normalized_slot_texts_def)
  have pt: "pull_translations ?s ?item
      = Some (list_all (\<lambda>t. t \<noteq> []) ?nst, ?nst \<noteq> stored_translations ?item, ?item1)"
    using ctrl by (simp add: pull_translations_eq nst)
  have fz: "IsFuzzy ?item1 = IsFuzzy ?item"
    by (simp add: IsFuzzy_def store_translations_fields)
  show ?thesis
    using bound acc
    by (auto simp: UpdateFromTextCtrl_def Let_def pt fz autoclear_def accepted_item_def)
qed

lemma normalized_slot_texts_cong:
  "source item' = source item \<Longrightarrow> hasPlural item' = hasPlural item \<Longrightarrow>
   m_textTrans s' = m_textTrans s \<Longrightarrow> m_textTransPlural s' = m_textTransPlural s \<Longrightarrow>
   normalized_slot_texts s' item' = normalized_slot_texts s item"
  by (simp add: normalized_slot_texts_def PreprocessEnteredTextForItem_def GetString_def
      HasPlural_def)

lemma length_normalized_slot_texts:
  "\<not> HasPlural item \<Longrightarrow> m_textTrans s \<noteq> None \<Longrightarrow>
   length (normalized_slot_texts s item) = 1"
  by (auto simp: normalized_slot_texts_def)

lemma stored_accepted_item:
  assumes "HasPlural item \<or> m_textTrans s \<noteq> None"
  shows "stored_translations (accepted_item s item nf) = normalized_slot_texts s item"
proof -
  have "stored_translations (accepted_item s item nf)
      = stored_translations (store_translations (normalized_slot_texts s item) item)"
    by (simp add: stored_translations_def GetTranslations_def GetTranslation_def HasPlural_def
        accepted_item_fields store_translations_fields)
  also have "\<dots> = normalized_slot_texts s item"
    using assms length_normalized_slot_texts [of item s]
    by (intro stored_store_translations) auto
  finally show ?thesis .
qed

lemma pull_defined:
  "currentCatalogItem s = Some p \<Longrightarrow> UpdateFromTextCtrl s = Some s1 \<Longrightarrow>
   HasPlural (items s p) \<or> m_textTrans s \<noteq> None"
proof (rule ccontr)
  assume bound: "currentCatalogItem s = Some p" and pull: "UpdateFromTextCtrl s = Some s1"
    and "\<not> (HasPlural (items s p) \<or> m_textTrans s \<noteq> None)"
  then have "pull_translations (s\<lparr>calls := calls s @ [EvUpdateFromTextCtrl]\<rparr>) (items s p) = None"
    by (simp add: pull_translations_def)
  with bound have "UpdateFromTextCtrl s = None"
    by (simp add: UpdateFromTextCtrl_def Let_def)
  with pull show False by simp
qed

lemma second_pull:
  assumes "UpdateFromTextCtrl s = Some s1"
  shows "UpdateFromTextCtrl s1 = Some (s1\<lparr>calls := calls s1 @ [EvUpdateFromTextCtrl]\<rparr>)"
proof (cases "currentCatalogItem s")
  case None
  with assms have "s1 = s\<lparr>calls := calls s @ [EvUpdateFromTextCtrl]\<rparr>"
    by (simp add: UpdateFromTextCtrl_def)
  with None show ?thesis
    by (simp add: UpdateFromTextCtrl_def)
next
  case (Some p)
  let ?item = "items s p"
  have ctrl: "HasPlural ?item \<or> m_textTrans s \<noteq> None"
    using Some assms by (rule pull_defined)
  show ?thesis
  proof (cases "toolbarFuzzy s = IsFuzzy ?item
                \<and> normalized_slot_texts s ?item = stored_translations ?item")
    case True
    with Some ctrl assms have s1: "s1 = s\<lparr>calls := calls s @ [EvUpdateFromTextCtrl]\<rparr>"
      by (simp add: noop_pull)
    have "normalized_slot_texts s1 (items s1 p) = normalized_slot_texts s ?item"
      unfolding s1 by (intro normalized_slot_texts_cong) simp_all
    with True Some ctrl show ?thesis
      by (intro noop_pull) (simp_all add: s1)
  next
    case False
    let ?nf = "autoclear s ?item"
    let ?it = "accepted_item s ?item ?nf"
    from False have acc: "toolbarFuzzy s \<noteq> IsFuzzy ?item
        \<or> normalized_slot_texts s ?item \<noteq> stored_translations ?item"
      by auto
    note eq = accepted_pull [OF Some ctrl acc]
    from assms eq Some have item1: "items s1 p = ?it"
      and tb: "toolbarFuzzy s1 = ?nf"
      and cur: "currentCatalogItem s1 = Some p"
      and tt: "m_textTrans s1 = m_textTrans s"
      and tp: "m_textTransPlural s1 = m_textTransPlural s"
      by auto
    have nst: "normalized_slot_texts s1 (items s1 p) = normalized_slot_texts s ?item"
      unfolding item1 using tt tp
      by (intro normalized_slot_texts_cong) (simp_all add: accepted_item_fields)
    have hp: "HasPlural (items s1 p) = HasPlural ?item"
      by (simp add: item1 HasPlural_def accepted_item_fields)
    show ?thesis
    proof (rule noop_pull [OF cur])
      show "HasPlural (items s1 p) \<or> m_textTrans s1 \<noteq> None"
        using ctrl hp tt by simp
      show "toolbarFuzzy s1 = IsFuzzy (items s1 p)"
        by (simp add: tb item1 IsFuzzy_def accepted_item_fields)
      show "normalized_slot_texts s1 (items s1 p) = stored_translations (items s1 p)"
        using nst stored_accepted_item [OF ctrl] by (simp add: item1)
    qed
  qed
qed

text \<open>Unfolding the concrete inputs and the accessors of an item.\<close>

lemmas fixture_defs = showing_def edit_mode_area_def singular_item_def plural_item_def
  new_TranslationTextCtrl_def

lemmas item_defs = GetString_def HasPlural_def GetTranslation_def GetTranslations_def
  IsFuzzy_def IsTranslated_def wxEmptyString_def GetPlainText_def

text \<open>
  C2: when an item is bound, the toolbar's fuzzy state equals the item's fuzzy flag and the
  processed texts of the controls equal the stored translations, the pull changes nothing:
  the state after it is the state before it with the entry into the pull added to the
  trace, so the item's translations and its four flags are as before and no call to the
  toolbar, the list control or the subscriber is made. And whatever a first pull did, a
  second pull right after it changes nothing.
\<close>

theorem C2_noop_pull:
  "(currentCatalogItem s = Some p
      \<and> toolbarFuzzy s = IsFuzzy (items s p)
      \<and> normalized_slot_texts s (items s p) = stored_translations (items s p)
    \<longrightarrow> UpdateFromTextCtrl s = Some (s\<lparr>calls := calls s @ [EvUpdateFromTextCtrl]\<rparr>))
   \<and> (UpdateFromTextCtrl s = Some s1
    \<longrightarrow> UpdateFromTextCtrl s1 = Some (s1\<lparr>calls := calls s1 @ [EvUpdateFromTextCtrl]\<rparr>))"
proof -
  have "HasPlural (items s p) \<or> m_textTrans s \<noteq> None"
    if "normalized_slot_texts s (items s p) = stored_translations (items s p)"
    using that
    by (cases "HasPlural (items s p)"; cases "m_textTrans s")
      (simp_all add: normalized_slot_texts_def stored_translations_def)
  then show ?thesis
    using noop_pull [of s p] second_pull [of s s1] by blast
qed

theorem C2_noop_pull_witness:
  "UpdateFromTextCtrl (showing (singular_item ''Hello'' ''Hi'' True) ''Hi'' [])
     = Some ((showing (singular_item ''Hello'' ''Hi'' True) ''Hi'' [])
              \<lparr>calls := [EvUpdateFromTextCtrl]\<rparr>)
   \<and> UpdateFromTextCtrl ((showing (singular_item ''Hello'' ''Hi'' True) ''Hi'' [])
              \<lparr>calls := [EvUpdateFromTextCtrl]\<rparr>)
     = Some ((showing (singular_item ''Hello'' ''Hi'' True) ''Hi'' [])
              \<lparr>calls := [EvUpdateFromTextCtrl, EvUpdateFromTextCtrl]\<rparr>)"
proof -
  let ?s = "showing (singular_item ''Hello'' ''Hi'' True) ''Hi'' []"
  have first: "UpdateFromTextCtrl ?s = Some (?s\<lparr>calls := [EvUpdateFromTextCtrl]\<rparr>)"
    using C2_noop_pull [of ?s 0]
    by (simp add: fixture_defs item_defs normalized_slot_texts_def stored_translations_def
        PreprocessEnteredTextForItem_def newline_def)
  from first C2_noop_pull [of ?s 0 "?s\<lparr>calls := [EvUpdateFromTextCtrl]\<rparr>"]
  show ?thesis
    by (simp add: fixture_defs)
qed

text \<open>
  C3, as stated, fails: an edit that the processing of entered text undoes is for the pull
  no change. The item "Hello" with the fuzzy translation "Hi" is shown, the user types a
  line feed at the end of the translation and touches nothing else; the checkbox reports
  fuzzy, the auto-clear is not suppressed. The pull strips the line feed, finds the stored
  text, returns at line 705, and the item stays fuzzy.
\<close>

theorem C3_autoclear_counterexample:
  "currentCatalogItem typed_newline_area = Some 0
   \<and> IsFuzzy (items typed_newline_area 0)
   \<and> toolbarFuzzy typed_newline_area = IsFuzzy (items typed_newline_area 0)
   \<and> \<not> m_dontAutoclearFuzzyStatus typed_newline_area
   \<and> map_option GetPlainText (m_textTrans typed_newline_area) = Some (''Hi'' @ [newline])
   \<and> GetTranslation (items typed_newline_area 0) 0 = ''Hi''
   \<and> UpdateFromTextCtrl typed_newline_area
       = Some (typed_newline_area\<lparr>calls := [EvUpdateFromTextCtrl]\<rparr>)
   \<and> IsFuzzy (items (typed_newline_area\<lparr>calls := [EvUpdateFromTextCtrl]\<rparr>) 0)"
  by (simp add: typed_newline_area_def fixture_defs item_defs UpdateFromTextCtrl_def
      pull_translations_def PreprocessEnteredTextForItem_def newline_def Let_def
      fun_upd_idem_iff)

text \<open>
  C3, amended: for a bound item with the fuzzy flag set, if a pull finds the processed
  texts of the controls different from the stored translations while the checkbox still
  reports the item's fuzzy state, then after the pull the item is not fuzzy when
  \<^verbatim>\<open>m_dontAutoclearFuzzyStatus\<close> is false, and still fuzzy when it is true. (The
  control that the pull reads exists.)
\<close>

theorem C3_autoclear:
  assumes "currentCatalogItem s = Some p"
    and "HasPlural (items s p) \<or> m_textTrans s \<noteq> None"
    and "IsFuzzy (items s p)" and "toolbarFuzzy s = IsFuzzy (items s p)"
    and "normalized_slot_texts s (items s p) \<noteq> stored_translations (items s p)"
  shows "\<exists>s'. UpdateFromTextCtrl s = Some s'
           \<and> IsFuzzy (items s' p) = m_dontAutoclearFuzzyStatus s"
  using assms
  by (simp add: accepted_pull IsFuzzy_def accepted_item_fields autoclear_def)

theorem C3_autoclear_witness:
  "(\<exists>s'. UpdateFromTextCtrl (showing (singular_item ''Hello'' ''Hi'' True) ''Hit'' []) = Some s'
         \<and> IsFuzzy (items s' 0) = False)
   \<and> (\<exists>s'. UpdateFromTextCtrl
             ((showing (singular_item ''Hello'' ''Hi'' True) ''Hit'' [])
                \<lparr>m_dontAutoclearFuzzyStatus := True\<rparr>) = Some s'
         \<and> IsFuzzy (items s' 0) = True)"
  using C3_autoclear [of "showing (singular_item ''Hello'' ''Hi'' True) ''Hit'' []" 0]
    C3_autoclear [of "(showing (singular_item ''Hello'' ''Hi'' True) ''Hit'' [])
                \<lparr>m_dontAutoclearFuzzyStatus := True\<rparr>" 0]
  by (simp add: fixture_defs item_defs normalized_slot_texts_def stored_translations_def
        PreprocessEnteredTextForItem_def newline_def)

text \<open>
  C4: after every pull that goes past the return at line 705 (the checkbox differs from
  the item's fuzzy flag, or the processed texts differ from the stored translations), the
  item's translated flag says whether every processed text is non-empty: all plural
  controls for an item with a plural, the one translation control otherwise. In
  particular, with the three plural controls holding "a", "" and "c", the item ends up
  not translated.
\<close>

theorem C4_translated_flag:
  assumes "currentCatalogItem s = Some p"
    and "HasPlural (items s p) \<or> m_textTrans s \<noteq> None"
    and "toolbarFuzzy s \<noteq> IsFuzzy (items s p)
         \<or> normalized_slot_texts s (items s p) \<noteq> stored_translations (items s p)"
  shows "\<exists>s'. UpdateFromTextCtrl s = Some s'
           \<and> IsTranslated (items s' p)
               = list_all (\<lambda>t. t \<noteq> []) (normalized_slot_texts s (items s p))
           \<and> (HasPlural (items s p)
                \<and> map GetPlainText (m_textTransPlural s) = [''a'', [], ''c'']
              \<longrightarrow> \<not> IsTranslated (items s' p))"
proof -
  have "\<not> list_all (\<lambda>t. t \<noteq> []) (normalized_slot_texts s (items s p))"
    if "HasPlural (items s p)" "map GetPlainText (m_textTransPlural s) = [''a'', [], ''c'']"
  proof -
    from that(2) obtain x y z where "m_textTransPlural s = [x, y, z]" "GetPlainText y = []"
      by auto
    with that(1) show ?thesis
      by (simp add: normalized_slot_texts_def PreprocessEnteredTextForItem_def)
  qed
  with assms show ?thesis
    by (auto simp: accepted_pull IsTranslated_def accepted_item_fields)
qed

theorem C4_translated_flag_witness:
  "\<exists>s'. UpdateFromTextCtrl
          (showing (plural_item ''file'' ''files'' [''a'', ''b'', ''c''] False) [] [''a'', [], ''c''])
        = Some s'
      \<and> IsTranslated (items s' 0) = False"
  using C4_translated_flag
    [of "showing (plural_item ''file'' ''files'' [''a'', ''b'', ''c''] False) [] [''a'', [], ''c'']" 0]
  by (simp add: fixture_defs item_defs normalized_slot_texts_def stored_translations_def
        PreprocessEnteredTextForItem_def newline_def)

text \<open>After a pull that returns, the item stores what the controls held, processed.\<close>

lemma pull_stores:
  assumes bound: "currentCatalogItem s = Some p"
    and ctrl: "HasPlural (items s p) \<or> m_textTrans s \<noteq> None"
  shows "\<exists>s'. UpdateFromTextCtrl s = Some s'
           \<and> stored_translations (items s' p) = normalized_slot_texts s (items s p)
           \<and> HasPlural (items s' p) = HasPlural (items s p)"
proof (cases "toolbarFuzzy s = IsFuzzy (items s p)
              \<and> normalized_slot_texts s (items s p) = stored_translations (items s p)")
  case True
  with bound ctrl show ?thesis
    by (simp add: noop_pull)
next
  case False
  then have acc: "toolbarFuzzy s \<noteq> IsFuzzy (items s p)
      \<or> normalized_slot_texts s (items s p) \<noteq> stored_translations (items s p)"
    by auto
  show ?thesis
    by (simp add: accepted_pull [OF bound ctrl acc] stored_accepted_item [OF ctrl]
        HasPlural_def accepted_item_fields)
qed

text \<open>
  C10: the processing is applied only when the entered text and the source text are both
  non-empty. An empty entered text stays empty for every source text, also one that ends
  with a newline; with an empty source the entered text is returned as it is. So a pull
  for an item without a plural stores the control's text verbatim when that text or the
  source is empty: an empty control is stored as the empty string.
\<close>

theorem C10_normalization_guard:
  "PreprocessEnteredTextForItem item [] = []
   \<and> (GetString item = [] \<longrightarrow> PreprocessEnteredTextForItem item t = t)
   \<and> (PreprocessEnteredTextForItem item t \<noteq> t \<longrightarrow> t \<noteq> [] \<and> GetString item \<noteq> [])
   \<and> (currentCatalogItem s = Some p \<and> \<not> HasPlural (items s p) \<and> m_textTrans s = Some t0
        \<and> (GetPlainText t0 = [] \<or> GetString (items s p) = [])
      \<longrightarrow> (\<exists>s'. UpdateFromTextCtrl s = Some s'
                \<and> GetTranslation (items s' p) 0 = GetPlainText t0))"
proof -
  have "\<exists>s'. UpdateFromTextCtrl s = Some s' \<and> GetTranslation (items s' p) 0 = GetPlainText t0"
    if bound: "currentCatalogItem s = Some p" and np: "\<not> HasPlural (items s p)"
      and t0: "m_textTrans s = Some t0"
      and guard: "GetPlainText t0 = [] \<or> GetString (items s p) = []"
  proof -
    from guard have "PreprocessEnteredTextForItem (items s p) (GetPlainText t0) = GetPlainText t0"
      by (auto simp: PreprocessEnteredTextForItem_def Let_def)
    with np t0 have "normalized_slot_texts s (items s p) = [GetPlainText t0]"
      by (simp add: normalized_slot_texts_def)
    moreover obtain s' where pull: "UpdateFromTextCtrl s = Some s'"
      and st: "stored_translations (items s' p) = normalized_slot_texts s (items s p)"
      and hp: "HasPlural (items s' p) = HasPlural (items s p)"
      using pull_stores [OF bound] t0 by blast
    ultimately have "GetTranslation (items s' p) 0 = GetPlainText t0"
      using np hp by (simp add: stored_translations_def)
    with pull show ?thesis by blast
  qed
  then show ?thesis
    by (simp add: PreprocessEnteredTextForItem_def Let_def)
qed

theorem C10_normalization_guard_witness:
  "PreprocessEnteredTextForItem (singular_item [newline] [] False) [] = []
   \<and> PreprocessEnteredTextForItem (singular_item [] [] False) (''Hi'' @ [newline])
        = ''Hi'' @ [newline]
   \<and> (\<exists>s'. UpdateFromTextCtrl (showing (singular_item (''Hello'' @ [newline]) ''Hi'' False) [] [])
               = Some s'
          \<and> GetTranslation (items s' 0) 0 = [])"
proof -
  let ?s = "showing (singular_item (''Hello'' @ [newline]) ''Hi'' False) [] []"
  note inst = C10_normalization_guard [of "singular_item [] [] False" "''Hi'' @ [newline]" ?s 0
      "\<lparr>plainText = [], evtHandlerEnabled = True\<rparr>"]
  have a: "PreprocessEnteredTextForItem (singular_item [] [] False) (''Hi'' @ [newline])
        = ''Hi'' @ [newline]"
    using inst by (simp add: GetString_def singular_item_def)
  have "currentCatalogItem ?s = Some 0 \<and> \<not> HasPlural (items ?s 0)
      \<and> m_textTrans ?s = Some \<lparr>plainText = [], evtHandlerEnabled = True\<rparr>
      \<and> (GetPlainText \<lparr>plainText = [], evtHandlerEnabled = True\<rparr> = [] \<or> GetString (items ?s 0) = [])"
    by (simp add: fixture_defs item_defs)
  with inst have b: "\<exists>s'. UpdateFromTextCtrl ?s = Some s'
      \<and> GetTranslation (items s' 0) 0 = GetPlainText \<lparr>plainText = [], evtHandlerEnabled = True\<rparr>"
    by blast
  have c: "PreprocessEnteredTextForItem (singular_item [newline] [] False) [] = []"
    using C10_normalization_guard [of "singular_item [newline] [] False"] by simp
  from a b c show ?thesis
    by (simp add: GetPlainText_def)
qed

section \<open>Push\<close>

text \<open>
  One \<^verbatim>\<open>SetTranslationValue\<close> on a control that exists: the write happens between the
  two calls of the guard, with the handler disabled, so it does not reach the pull.
\<close>

lemma SetTranslationValue_eq:
  assumes "GetCtrl c s = Some t0"
  shows "SetTranslationValue UndoableEdit c v flags s
           = Some (PutCtrl c (written_ctrl v)
                     (s\<lparr>calls := calls s @ set_value_calls UndoableEdit c v flags\<rparr>))"
proof (cases c)
  case TextTrans
  with assms show ?thesis
    by (cases t0)
      (simp add: SetTranslationValue_def EventHandlerDisabler_ctor_def
        EventHandlerDisabler_dtor_def SetEvtHandlerEnabled_def SetPlainText_def
        SetPlainTextUserWritten_def written_ctrl_def set_value_calls_def)
next
  case (TextTransPlural i)
  with assms show ?thesis
    by (cases t0)
      (simp add: SetTranslationValue_def EventHandlerDisabler_ctor_def
        EventHandlerDisabler_dtor_def SetEvtHandlerEnabled_def SetPlainText_def
        SetPlainTextUserWritten_def written_ctrl_def set_value_calls_def split: if_splits)
qed

lemma clear_plurals_eq:
  "j \<le> formsCnt \<Longrightarrow> formsCnt = length (m_textTransPlural s) \<Longrightarrow>
   clear_plurals UndoableEdit flags formsCnt j s
     = Some (s\<lparr>m_textTransPlural :=
                  take j (m_textTransPlural s) @ replicate (formsCnt - j) (written_ctrl []),
               calls := calls s @
                  concat (map (\<lambda>k. set_value_calls UndoableEdit (TextTransPlural k) [] flags)
                            [j..<formsCnt])\<rparr>)"
proof (induction UndoableEdit flags formsCnt j s rule: clear_plurals.induct)
  case (1 UndoableEdit flags formsCnt j s)
  show ?case
  proof (cases "j < formsCnt")
    case True
    let ?s' = "PutCtrl (TextTransPlural j) (written_ctrl [])
                 (s\<lparr>calls := calls s @ set_value_calls UndoableEdit (TextTransPlural j) [] flags\<rparr>)"
    have get: "GetCtrl (TextTransPlural j) s = Some (m_textTransPlural s ! j)"
      using True "1.prems" by simp
    have step: "SetTranslationValue UndoableEdit (TextTransPlural j) wxEmptyString flags s = Some ?s'"
      using SetTranslationValue_eq [OF get] by (simp add: wxEmptyString_def)
    have ih: "clear_plurals UndoableEdit flags formsCnt (j + 1) ?s'
        = Some (?s'\<lparr>m_textTransPlural :=
                  take (j + 1) (m_textTransPlural ?s') @ replicate (formsCnt - (j + 1)) (written_ctrl []),
               calls := calls ?s' @
                  concat (map (\<lambda>k. set_value_calls UndoableEdit (TextTransPlural k) [] flags)
                            [j + 1..<formsCnt])\<rparr>)"
      using True "1.prems" by (intro "1.IH" [OF True step]) simp_all
    have "take (j + 1) ((m_textTransPlural s)[j := written_ctrl []])
            = take j (m_textTransPlural s) @ [written_ctrl []]"
      using True "1.prems" by (simp add: take_Suc_conv_app_nth)
    moreover have "written_ctrl [] # replicate (formsCnt - (j + 1)) (written_ctrl [])
            = replicate (formsCnt - j) (written_ctrl [])"
      using True by (simp add: Suc_diff_Suc flip: replicate_Suc)
    ultimately have tk: "take (j + 1) ((m_textTransPlural s)[j := written_ctrl []])
                @ replicate (formsCnt - (j + 1)) (written_ctrl [])
            = take j (m_textTransPlural s) @ replicate (formsCnt - j) (written_ctrl [])"
      by simp
    have up: "[j..<formsCnt] = j # [j + 1..<formsCnt]"
      using True by (simp add: upt_conv_Cons)
    have "clear_plurals UndoableEdit flags formsCnt j s
        = clear_plurals UndoableEdit flags formsCnt (j + 1) ?s'"
      using True by (subst clear_plurals.simps) (simp only: step if_True option.case)
    also note ih
    also have "?s'\<lparr>m_textTransPlural :=
                  take (j + 1) (m_textTransPlural ?s') @ replicate (formsCnt - (j + 1)) (written_ctrl []),
               calls := calls ?s' @
                  concat (map (\<lambda>k. set_value_calls UndoableEdit (TextTransPlural k) [] flags)
                            [j + 1..<formsCnt])\<rparr>
        = s\<lparr>m_textTransPlural :=
                  take j (m_textTransPlural s) @ replicate (formsCnt - j) (written_ctrl []),
               calls := calls s @
                  concat (map (\<lambda>k. set_value_calls UndoableEdit (TextTransPlural k) [] flags)
                            [j..<formsCnt])\<rparr>"
      using tk by (simp add: up del: upt_Suc)
    finally show ?thesis .
  next
    case False
    with "1.prems" show ?thesis
      by (subst clear_plurals.simps) simp
  qed
qed


lemma write_plurals_eq:
  assumes "formsCnt = length (m_textTransPlural s)"
    and "ts = itemTranslations (items s item)"
    and "m = min formsCnt (length ts)"
    and "i \<le> m"
  shows "write_plurals UndoableEdit item flags formsCnt i s
     = Some (s\<lparr>m_textTransPlural :=
                  take i (m_textTransPlural s) @ map written_ctrl (drop i (take m ts))
                    @ drop m (m_textTransPlural s),
               calls := calls s @
                  concat (map (\<lambda>k. set_value_calls UndoableEdit (TextTransPlural k) (ts ! k) flags)
                            [i..<m])\<rparr>)"
  using assms
proof (induction UndoableEdit item flags formsCnt i s rule: write_plurals.induct)
  case (1 UndoableEdit item flags formsCnt i s)
  let ?xs = "m_textTransPlural s"
  show ?case
  proof (cases "i < m")
    case True
    let ?w = "written_ctrl (ts ! i)"
    let ?s' = "PutCtrl (TextTransPlural i) ?w
                 (s\<lparr>calls := calls s @ set_value_calls UndoableEdit (TextTransPlural i) (ts ! i) flags\<rparr>)"
    have cond: "i < min formsCnt (GetNumberOfTranslations (items s item))"
      using True "1.prems" by (simp add: GetNumberOfTranslations_def)
    have get: "GetCtrl (TextTransPlural i) s = Some (?xs ! i)"
      using True "1.prems" by simp
    have tr: "GetTranslation (items s item) i = ts ! i"
      using True "1.prems" by (simp add: GetTranslation_def)
    have step: "SetTranslationValue UndoableEdit (TextTransPlural i)
                  (GetTranslation (items s item) i) flags s = Some ?s'"
      using SetTranslationValue_eq [OF get] by (simp add: tr)
    have ih: "write_plurals UndoableEdit item flags formsCnt (i + 1) ?s'
        = Some (?s'\<lparr>m_textTransPlural :=
                  take (i + 1) (m_textTransPlural ?s') @ map written_ctrl (drop (i + 1) (take m ts))
                    @ drop m (m_textTransPlural ?s'),
               calls := calls ?s' @
                  concat (map (\<lambda>k. set_value_calls UndoableEdit (TextTransPlural k) (ts ! k) flags)
                            [i + 1..<m])\<rparr>)"
      using True "1.prems" by (intro "1.IH" [OF cond step]) simp_all
    have "take (i + 1) (?xs[i := ?w]) = take i ?xs @ [?w]"
      using True "1.prems" by (simp add: take_Suc_conv_app_nth)
    moreover have "drop m (?xs[i := ?w]) = drop m ?xs"
      using True by simp
    moreover have "drop i (take m ts) = ts ! i # drop (i + 1) (take m ts)"
    proof -
      have "i < length (take m ts)" using True "1.prems" by simp
      then have "drop i (take m ts) = take m ts ! i # drop (Suc i) (take m ts)"
        by (rule Cons_nth_drop_Suc [symmetric])
      with True show ?thesis by simp
    qed
    ultimately have tk: "take (i + 1) (?xs[i := ?w]) @ map written_ctrl (drop (i + 1) (take m ts))
                    @ drop m (?xs[i := ?w])
        = take i ?xs @ map written_ctrl (drop i (take m ts)) @ drop m ?xs"
      by simp
    have up: "[i..<m] = i # [i + 1..<m]"
      using True by (simp add: upt_conv_Cons)
    have "write_plurals UndoableEdit item flags formsCnt i s
        = write_plurals UndoableEdit item flags formsCnt (i + 1) ?s'"
      using cond by (subst write_plurals.simps) (simp only: step if_True option.case)
    also note ih
    also have "?s'\<lparr>m_textTransPlural :=
                  take (i + 1) (m_textTransPlural ?s') @ map written_ctrl (drop (i + 1) (take m ts))
                    @ drop m (m_textTransPlural ?s'),
               calls := calls ?s' @
                  concat (map (\<lambda>k. set_value_calls UndoableEdit (TextTransPlural k) (ts ! k) flags)
                            [i + 1..<m])\<rparr>
        = s\<lparr>m_textTransPlural :=
                  take i ?xs @ map written_ctrl (drop i (take m ts)) @ drop m ?xs,
               calls := calls s @
                  concat (map (\<lambda>k. set_value_calls UndoableEdit (TextTransPlural k) (ts ! k) flags)
                            [i..<m])\<rparr>"
      using tk by (simp add: up del: upt_Suc)
    finally show ?thesis .
  next
    case False
    with "1.prems"(4) have im: "i = m" by linarith
    have "\<not> i < min formsCnt (GetNumberOfTranslations (items s item))"
      using im "1.prems"(2,3) by (simp add: GetNumberOfTranslations_def)
    then have "write_plurals UndoableEdit item flags formsCnt i s = Some s"
      by (subst write_plurals.simps) (simp only: if_False)
    then show ?thesis
      by (simp add: im)
  qed
qed

lemma push_plural:
  assumes "HasPlural (items s p)"
  shows "UpdateToTextCtrl UndoableEdit p flags s
     = Some (s\<lparr>m_dontAutoclearFuzzyStatus := False,
               m_textOrig := GetString (items s p),
               m_textOrigPlural := GetPluralString (items s p),
               m_textTransPlural :=
                 map written_ctrl (take (length (m_textTransPlural s)) (GetTranslations (items s p)))
                 @ replicate (length (m_textTransPlural s) - length (GetTranslations (items s p)))
                     (written_ctrl []),
               calls := calls s @ push_calls UndoableEdit flags s (items s p)\<rparr>)"
proof -
  let ?n = "length (m_textTransPlural s)"
  let ?ts = "itemTranslations (items s p)"
  let ?m = "min ?n (length ?ts)"
  let ?s2 = "s\<lparr>m_textOrig := GetString (items s p),
                m_textOrigPlural := GetPluralString (items s p)\<rparr>"
  let ?clears = "concat (map (\<lambda>j. set_value_calls UndoableEdit (TextTransPlural j) [] flags) [0..<?n])"
  let ?writes = "concat (map (\<lambda>i. set_value_calls UndoableEdit (TextTransPlural i) (?ts ! i) flags)
                           [0..<?m])"
  let ?s3 = "?s2\<lparr>m_textTransPlural := replicate ?n (written_ctrl []),
                 calls := calls s @ ?clears\<rparr>"
  have "clear_plurals UndoableEdit flags ?n 0 ?s2
      = Some (?s2\<lparr>m_textTransPlural :=
                  take 0 (m_textTransPlural ?s2) @ replicate (?n - 0) (written_ctrl []),
               calls := calls ?s2 @ ?clears\<rparr>)"
    by (rule clear_plurals_eq) simp_all
  then have cl: "clear_plurals UndoableEdit flags ?n 0 ?s2 = Some ?s3"
    by simp
  have "write_plurals UndoableEdit p flags ?n 0 ?s3
      = Some (?s3\<lparr>m_textTransPlural :=
                  take 0 (m_textTransPlural ?s3) @ map written_ctrl (drop 0 (take ?m ?ts))
                    @ drop ?m (m_textTransPlural ?s3),
               calls := calls ?s3 @ ?writes\<rparr>)"
    by (rule write_plurals_eq) simp_all
  moreover have "take ?m ?ts = take ?n ?ts"
    by (simp add: min_def)
  moreover have "?n - ?m = ?n - length ?ts"
    by (simp add: min_def)
  ultimately have wr: "write_plurals UndoableEdit p flags ?n 0 ?s3
      = Some (?s2\<lparr>m_textTransPlural :=
                  map written_ctrl (take ?n ?ts) @ replicate (?n - length ?ts) (written_ctrl []),
               calls := calls s @ ?clears @ ?writes\<rparr>)"
    by simp
  show ?thesis
    using assms
    by (simp add: UpdateToTextCtrl_def Let_def cl wr push_calls_def GetTranslations_def)
qed

lemma push_singular:
  assumes "\<not> HasPlural (items s p)"
  shows "UpdateToTextCtrl UndoableEdit p flags s
     = Some (s\<lparr>m_dontAutoclearFuzzyStatus := False,
               m_textOrig := GetString (items s p),
               m_textTrans := map_option (\<lambda>t0. written_ctrl (GetTranslation (items s p) 0))
                                (m_textTrans s),
               calls := calls s @ push_calls UndoableEdit flags s (items s p)\<rparr>)"
proof (cases "m_textTrans s")
  case None
  with assms show ?thesis
    by (simp add: UpdateToTextCtrl_def Let_def push_calls_def)
next
  case (Some t0)
  then have "GetCtrl TextTrans (s\<lparr>m_textOrig := GetString (items s p)\<rparr>) = Some t0"
    by simp
  from SetTranslationValue_eq [OF this] assms Some show ?thesis
    by (simp add: UpdateToTextCtrl_def Let_def push_calls_def)
qed

lemma set_value_calls_no_pull:
  "EvUpdateFromTextCtrl \<notin> set (set_value_calls UndoableEdit c v flags)"
  by (simp add: set_value_calls_def)

lemma push_calls_blocks:
  "\<exists>ws. push_calls UndoableEdit flags s item
          = concat (map (\<lambda>(c, v). set_value_calls UndoableEdit c v flags) ws)"
proof (cases "HasPlural item")
  case True
  let ?ws = "map (\<lambda>j. (TextTransPlural j, [])) [0..<length (m_textTransPlural s)]
             @ map (\<lambda>i. (TextTransPlural i, GetTranslations item ! i))
                 [0..<min (length (m_textTransPlural s)) (length (GetTranslations item))]"
  from True have "push_calls UndoableEdit flags s item
      = concat (map (\<lambda>(c, v). set_value_calls UndoableEdit c v flags) ?ws)"
    by (simp add: push_calls_def comp_def)
  then show ?thesis ..
next
  case False
  show ?thesis
  proof (cases "m_textTrans s")
    case None
    with False have "push_calls UndoableEdit flags s item
        = concat (map (\<lambda>(c, v). set_value_calls UndoableEdit c v flags) [])"
      by (simp add: push_calls_def)
    then show ?thesis ..
  next
    case (Some t0)
    with False have "push_calls UndoableEdit flags s item
        = concat (map (\<lambda>(c, v). set_value_calls UndoableEdit c v flags)
                    [(TextTrans, GetTranslation item 0)])"
      by (simp add: push_calls_def)
    then show ?thesis ..
  qed
qed

lemma push_calls_no_pull:
  "EvUpdateFromTextCtrl \<notin> set (push_calls UndoableEdit flags s item)"
  by (auto simp: push_calls_def set_value_calls_def)

text \<open>
  What the suppression is for: a write to a control whose handler is enabled does run
  the pull, and every pull leaves its entry in the trace.
\<close>

lemma text_event_reaches_pull:
  assumes "GetCtrl c s = Some t0" and "evtHandlerEnabled t0"
  shows "SetPlainText c v s
           = UpdateFromTextCtrl (PutCtrl c (t0\<lparr>plainText := v\<rparr>)
                                   (s\<lparr>calls := calls s @ [EvSetPlainText c v]\<rparr>))"
  using assms by (simp add: SetPlainText_def)

lemma pull_traced:
  "UpdateFromTextCtrl s = Some s' \<Longrightarrow> EvUpdateFromTextCtrl \<in> set (calls s')"
  by (auto simp: UpdateFromTextCtrl_def Let_def split: option.splits if_splits)

lemma push_effect:
  "\<exists>s'. UpdateToTextCtrl UndoableEdit p flags s = Some s'
      \<and> calls s' = calls s @ push_calls UndoableEdit flags s (items s p)
      \<and> items s' = items s \<and> toolbarFuzzy s' = toolbarFuzzy s
      \<and> currentCatalogItem s' = currentCatalogItem s
      \<and> m_dontAutoclearFuzzyStatus s' = False"
  by (cases "HasPlural (items s p)") (simp_all add: push_plural push_singular)

text \<open>
  C1: every \<^verbatim>\<open>SetTranslationValue\<close> on an existing control, in either write mode,
  disables the control's handler, writes, and enables the handler again (whatever it was
  before), without touching an item or the toolbar. A push, for every item and every
  write mode, returns, and what it adds to the trace is a sequence of such bracketed
  writes and nothing else: no entry into \<^verbatim>\<open>UpdateFromTextCtrl\<close>; the items and the
  toolbar are as before.
\<close>

theorem C1_push_suppresses_pull:
  "(GetCtrl c s \<noteq> None \<longrightarrow>
      (\<exists>s'. SetTranslationValue UndoableEdit c v flags s = Some s'
            \<and> calls s' = calls s @
                  [EvSetEvtHandlerEnabled c False,
                   if flags AND UndoableEdit \<noteq> 0 then EvSetPlainTextUserWritten c v
                   else EvSetPlainText c v,
                   EvSetEvtHandlerEnabled c True]
            \<and> map_option evtHandlerEnabled (GetCtrl c s') = Some True
            \<and> items s' = items s \<and> toolbarFuzzy s' = toolbarFuzzy s))
   \<and> (\<exists>s' ws. UpdateToTextCtrl UndoableEdit p flags s = Some s'
            \<and> calls s' = calls s @ concat (map (\<lambda>(c, v). set_value_calls UndoableEdit c v flags) ws)
            \<and> EvUpdateFromTextCtrl \<notin> set (concat (map (\<lambda>(c, v). set_value_calls UndoableEdit c v flags) ws))
            \<and> items s' = items s \<and> toolbarFuzzy s' = toolbarFuzzy s)"
proof (intro conjI impI)
  assume "GetCtrl c s \<noteq> None"
  then obtain t0 where get: "GetCtrl c s = Some t0" by auto
  show "\<exists>s'. SetTranslationValue UndoableEdit c v flags s = Some s'
            \<and> calls s' = calls s @
                  [EvSetEvtHandlerEnabled c False,
                   if flags AND UndoableEdit \<noteq> 0 then EvSetPlainTextUserWritten c v
                   else EvSetPlainText c v,
                   EvSetEvtHandlerEnabled c True]
            \<and> map_option evtHandlerEnabled (GetCtrl c s') = Some True
            \<and> items s' = items s \<and> toolbarFuzzy s' = toolbarFuzzy s"
  proof -
    let ?s' = "PutCtrl c (written_ctrl v)
                 (s\<lparr>calls := calls s @ set_value_calls UndoableEdit c v flags\<rparr>)"
    have "SetTranslationValue UndoableEdit c v flags s = Some ?s'"
      by (rule SetTranslationValue_eq [OF get])
    moreover have "calls ?s' = calls s @
                  [EvSetEvtHandlerEnabled c False,
                   if flags AND UndoableEdit \<noteq> 0 then EvSetPlainTextUserWritten c v
                   else EvSetPlainText c v,
                   EvSetEvtHandlerEnabled c True]"
      by (cases c) (simp_all add: set_value_calls_def)
    moreover have "map_option evtHandlerEnabled (GetCtrl c ?s') = Some True"
      using get by (cases c) (simp_all add: written_ctrl_def split: if_splits)
    moreover have "items ?s' = items s" "toolbarFuzzy ?s' = toolbarFuzzy s"
      by (cases c; simp)+
    ultimately show ?thesis by blast
  qed
next
  obtain ws where ws: "push_calls UndoableEdit flags s (items s p)
      = concat (map (\<lambda>(c, v). set_value_calls UndoableEdit c v flags) ws)"
    using push_calls_blocks by blast
  have np: "EvUpdateFromTextCtrl \<notin> set (concat (map (\<lambda>(c, v). set_value_calls UndoableEdit c v flags) ws))"
    unfolding ws [symmetric] by (rule push_calls_no_pull)
  show "\<exists>s' ws. UpdateToTextCtrl UndoableEdit p flags s = Some s'
            \<and> calls s' = calls s @ concat (map (\<lambda>(c, v). set_value_calls UndoableEdit c v flags) ws)
            \<and> EvUpdateFromTextCtrl \<notin> set (concat (map (\<lambda>(c, v). set_value_calls UndoableEdit c v flags) ws))
            \<and> items s' = items s \<and> toolbarFuzzy s' = toolbarFuzzy s"
    using push_effect [of UndoableEdit p flags s] np unfolding ws by blast
qed

theorem C1_push_suppresses_pull_witness:
  "\<exists>s'. SetTranslationValue 1 TextTrans ''Hi'' 1
          (showing (singular_item ''Hello'' ''Hi'' True) ''old'' []) = Some s'
      \<and> calls s' = [EvSetEvtHandlerEnabled TextTrans False,
                     EvSetPlainTextUserWritten TextTrans ''Hi'',
                     EvSetEvtHandlerEnabled TextTrans True]
      \<and> items s' = items (showing (singular_item ''Hello'' ''Hi'' True) ''old'' [])"
  using C1_push_suppresses_pull
    [of TextTrans "showing (singular_item ''Hello'' ''Hi'' True) ''old'' []" 1 "''Hi''" 1,
     THEN conjunct1]
  by (simp add: fixture_defs) blast

text \<open>
  C7: a push of an item with a plural first clears every plural control and then writes
  translation \<open>i\<close> into control \<open>i\<close> for every \<open>i\<close> below the smaller of the number
  of controls and the number of stored translations, in this order and nothing else.
  After it the controls hold the stored translations, cut to the number of controls, and
  the controls beyond them are empty: whatever the controls held before is gone. The
  translation control of items without a plural is not written.
\<close>

theorem C7_push_plural:
  assumes "HasPlural (items s p)"
  shows "\<exists>s'. UpdateToTextCtrl UndoableEdit p flags s = Some s'
     \<and> map GetPlainText (m_textTransPlural s')
         = take (length (m_textTransPlural s)) (GetTranslations (items s p))
           @ replicate (length (m_textTransPlural s) - length (GetTranslations (items s p))) []
     \<and> calls s' = calls s
         @ concat (map (\<lambda>j. set_value_calls UndoableEdit (TextTransPlural j) [] flags)
                     [0..<length (m_textTransPlural s)])
         @ concat (map (\<lambda>i. set_value_calls UndoableEdit (TextTransPlural i)
                                (GetTranslations (items s p) ! i) flags)
                     [0..<min (length (m_textTransPlural s))
                              (length (GetTranslations (items s p)))])
     \<and> m_textTrans s' = m_textTrans s"
  using assms
  by (simp add: push_plural push_calls_def comp_def GetPlainText_def written_ctrl_def)

theorem C7_push_plural_witness:
  "\<exists>s'. UpdateToTextCtrl 1 0 0
          (showing (plural_item ''file'' ''files'' [''a'', ''b''] False) ''stale''
             [''old1'', ''old2'', ''old3'']) = Some s'
      \<and> map GetPlainText (m_textTransPlural s') = [''a'', ''b'', []]
      \<and> map_option GetPlainText (m_textTrans s') = Some ''stale''"
  using C7_push_plural
    [of "showing (plural_item ''file'' ''files'' [''a'', ''b''] False) ''stale''
             [''old1'', ''old2'', ''old3'']" 0 1 0]
  by (auto simp: fixture_defs item_defs)

section \<open>Push followed by pull\<close>

text \<open>
  C6, as stated, fails: a stored translation that the processing of entered text would
  change does not survive the round trip as "no change". The item "Hello" is fuzzy, not
  modified, and its stored translation is "Hi\n"; the toolbar shows fuzzy. The push writes
  "Hi\n" into the control, the pull at once reads it back as "Hi", takes this for an edit,
  stores "Hi", clears the fuzzy flag and sets the modified flag.
\<close>

theorem C6_round_trip_counterexample:
  "IsFuzzy (items unnormalized_area 0)
   \<and> toolbarFuzzy unnormalized_area = IsFuzzy (items unnormalized_area 0)
   \<and> currentCatalogItem unnormalized_area = Some 0
   \<and> items unnormalized_area 0 = singular_item ''Hello'' (''Hi'' @ [newline]) True
   \<and> item_after 0 (push_then_pull 1 0 0 unnormalized_area)
       = Some ((singular_item ''Hello'' ''Hi'' False)\<lparr>isModified := True\<rparr>)"
proof -
  have np: "\<not> HasPlural (items unnormalized_area 0)"
    by (simp add: unnormalized_area_def fixture_defs item_defs)
  show ?thesis
    by (simp add: push_then_pull_def push_singular [OF np] item_after_def)
      (simp add: unnormalized_area_def fixture_defs item_defs UpdateFromTextCtrl_def
        pull_translations_def PreprocessEnteredTextForItem_def newline_def Let_def
        written_ctrl_def push_calls_def SetTranslation_def SetFuzzy_def SetModified_def
        SetPreTranslated_def SetTranslated_def)
qed

text \<open>What the controls hold after a push, as the pull reads them.\<close>

lemma itemTranslations_store:
  "HasPlural item \<or> (length ts = 1 \<and> length (itemTranslations item) = 1) \<Longrightarrow>
   itemTranslations (store_translations ts item) = ts"
  by (cases ts; cases "itemTranslations item")
    (auto simp: store_translations_def stored_translations_def SetTranslations_def
      SetTranslation_def GetTranslations_def GetTranslation_def wxEmptyString_def)

lemma pushed_texts:
  assumes shape: "if HasPlural (items s p)
                  then length (m_textTransPlural s) = length (GetTranslations (items s p))
                  else m_textTrans s \<noteq> None \<and> length (GetTranslations (items s p)) = 1"
    and push: "UpdateToTextCtrl UndoableEdit p flags s = Some s1"
  shows "normalized_slot_texts s1 (items s p)
           = map (PreprocessEnteredTextForItem (items s p)) (GetTranslations (items s p))"
    and "stored_translations (items s p) = GetTranslations (items s p)"
    and "HasPlural (items s p) \<or> m_textTrans s1 \<noteq> None"
proof -
  let ?item = "items s p"
  let ?ts = "GetTranslations ?item"
  show "normalized_slot_texts s1 ?item = map (PreprocessEnteredTextForItem ?item) ?ts"
  proof (cases "HasPlural ?item")
    case True
    with shape push show ?thesis
      by (auto simp: push_plural normalized_slot_texts_def comp_def GetPlainText_def
          written_ctrl_def)
  next
    case False
    with shape obtain t where ts: "?ts = [t]"
      by (cases ?ts) auto
    from False shape push ts show ?thesis
      by (auto simp: push_singular normalized_slot_texts_def GetPlainText_def written_ctrl_def
          GetTranslation_def GetTranslations_def)
  qed
  show "stored_translations ?item = ?ts"
  proof (cases "HasPlural ?item")
    case True
    then show ?thesis by (simp add: stored_translations_def)
  next
    case False
    with shape obtain t where ts: "?ts = [t]"
      by (cases ?ts) auto
    with False show ?thesis
      by (simp add: stored_translations_def GetTranslation_def GetTranslations_def)
  qed
  show "HasPlural ?item \<or> m_textTrans s1 \<noteq> None"
    using shape push by (cases "HasPlural ?item") (auto simp: push_singular)
qed

text \<open>
  C6, amended: let the pushed item be the list's current item, with as many stored
  translations as there are plural controls (item with a plural) or with one stored
  translation and an existing translation control (item without). Then a push followed at
  once by a pull returns and leaves as the item's translations the stored ones after the
  processing of entered text; and if that processing changes none of them and the toolbar
  shows the item's fuzzy flag, the pull is a no-op and no item is changed: translations,
  fuzzy, translated and modified flags are as before.
\<close>

theorem C6_round_trip:
  assumes bound: "currentCatalogItem s = Some p"
    and shape: "if HasPlural (items s p)
                then length (m_textTransPlural s) = length (GetTranslations (items s p))
                else m_textTrans s \<noteq> None \<and> length (GetTranslations (items s p)) = 1"
  shows "\<exists>s'. push_then_pull UndoableEdit p flags s = Some s'
           \<and> GetTranslations (items s' p)
               = map (PreprocessEnteredTextForItem (items s p)) (GetTranslations (items s p))
           \<and> (toolbarFuzzy s = IsFuzzy (items s p)
                \<and> map (PreprocessEnteredTextForItem (items s p)) (GetTranslations (items s p))
                    = GetTranslations (items s p)
              \<longrightarrow> items s' = items s)"
proof -
  let ?item = "items s p"
  let ?ts = "GetTranslations ?item"
  let ?nts = "map (PreprocessEnteredTextForItem ?item) ?ts"
  obtain s1 where push: "UpdateToTextCtrl UndoableEdit p flags s = Some s1"
    and it: "items s1 = items s" and tb: "toolbarFuzzy s1 = toolbarFuzzy s"
    and cur: "currentCatalogItem s1 = Some p"
    using push_effect [of UndoableEdit p flags s] bound by auto
  note pt = pushed_texts [OF shape push]
  have ptp: "push_then_pull UndoableEdit p flags s = UpdateFromTextCtrl s1"
    by (simp add: push_then_pull_def push)
  have ctrl: "HasPlural (items s1 p) \<or> m_textTrans s1 \<noteq> None"
    using pt(3) by (simp add: it)
  show ?thesis
  proof (cases "toolbarFuzzy s = IsFuzzy ?item \<and> ?nts = ?ts")
    case True
    have "UpdateFromTextCtrl s1 = Some (s1\<lparr>calls := calls s1 @ [EvUpdateFromTextCtrl]\<rparr>)"
      using True pt ctrl by (intro noop_pull [OF cur]) (simp_all add: it tb)
    with True show ?thesis
      by (simp add: ptp it)
  next
    case False
    then have acc: "toolbarFuzzy s1 \<noteq> IsFuzzy (items s1 p)
        \<or> normalized_slot_texts s1 (items s1 p) \<noteq> stored_translations (items s1 p)"
      using pt by (auto simp: it tb)
    have len: "HasPlural ?item \<or> (length ?nts = 1 \<and> length (itemTranslations ?item) = 1)"
      using shape by (cases "HasPlural ?item") (simp_all add: GetTranslations_def)
    have "itemTranslations (store_translations ?nts ?item) = ?nts"
      using len by (rule itemTranslations_store)
    with False show ?thesis
      using pt(1)
      by (auto simp: ptp accepted_pull [OF cur ctrl acc] it GetTranslations_def
          accepted_item_fields)
  qed
qed

theorem C6_round_trip_witness:
  "\<exists>s'. push_then_pull 1 0 0
          (showing (plural_item ''file'' ''files'' [''a'', ''b''] True) [] [''x'', ''y'']) = Some s'
      \<and> GetTranslations (items s' 0) = [''a'', ''b'']
      \<and> items s' = items (showing (plural_item ''file'' ''files'' [''a'', ''b''] True) []
                            [''x'', ''y''])"
  using C6_round_trip
    [of "showing (plural_item ''file'' ''files'' [''a'', ''b''] True) [] [''x'', ''y'']" 0 1 0]
  by (simp add: fixture_defs item_defs PreprocessEnteredTextForItem_def newline_def)

end
